theory Spec2Isabelle
  imports Main "HOL-Library.AList"
begin

unbundle bit_operations_syntax

section \<open>JavaScript strings and the base64 builtins\<close>

text \<open>
  A JavaScript string is a sequence of UTF-16 code units; a code unit is modelled
  as a natural number. A "binary string" is one whose code units are all below 256.
\<close>

type_synonym jsstring = "nat list"

definition js :: "string \<Rightarrow> jsstring" where
  "js s = map of_char s"

definition is_bytes :: "jsstring \<Rightarrow> bool" where
  "is_bytes s = list_all (\<lambda>c. c < 256) s"

text \<open>
  The base64 alphabet \<open>A-Z a-z 0-9 + /\<close> as a function from the 6-bit value to the
  code unit, and back.
\<close>

definition b64chr :: "nat \<Rightarrow> nat" where
  "b64chr i =
     (if i < 26 then 65 + i
      else if i < 52 then 71 + i
      else if i < 62 then i - 4
      else if i = 62 then 43
      else 47)"

definition b64idx :: "nat \<Rightarrow> nat option" where
  "b64idx c =
     (if 65 \<le> c \<and> c \<le> 90 then Some (c - 65)
      else if 97 \<le> c \<and> c \<le> 122 then Some (c - 71)
      else if 48 \<le> c \<and> c \<le> 57 then Some (c + 4)
      else if c = 43 then Some 62
      else if c = 47 then Some 63
      else None)"

text \<open>The 6-bit values of a byte string: three bytes give four values.\<close>

fun b64sext :: "nat list \<Rightarrow> nat list" where
  "b64sext (a # b # c # r) =
     [a div 4, (a mod 4) * 16 + b div 16, (b mod 16) * 4 + c div 64, c mod 64] @ b64sext r"
| "b64sext [a, b] = [a div 4, (a mod 4) * 16 + b div 16, (b mod 16) * 4]"
| "b64sext [a] = [a div 4, (a mod 4) * 16]"
| "b64sext [] = []"

definition b64padn :: "nat list \<Rightarrow> nat" where
  "b64padn s = (3 - length s mod 3) mod 3"

text \<open>Standard base64 with \<open>=\<close> padding (code unit 61) of a byte string.\<close>

definition b64enc :: "nat list \<Rightarrow> jsstring" where
  "b64enc s = map b64chr (b64sext s) @ replicate (b64padn s) 61"

text \<open>The bytes of a list of 6-bit values; an incomplete group gives one or two bytes.\<close>

fun b64dec :: "nat list \<Rightarrow> nat list" where
  "b64dec (p # q # r # s # rest) =
     [p * 4 + q div 16, (q mod 16) * 16 + r div 4, (r mod 4) * 64 + s] @ b64dec rest"
| "b64dec [p, q, r] = [p * 4 + q div 16, (q mod 16) * 16 + r div 4]"
| "b64dec [p, q] = [p * 4 + q div 16]"
| "b64dec [p] = []"
| "b64dec [] = []"

text \<open>
  \<open>btoa\<close>: throws InvalidCharacterError (\<open>None\<close>) when a code unit is above 255.
\<close>

definition btoa :: "jsstring \<Rightarrow> jsstring option" where
  "btoa s = (if is_bytes s then Some (b64enc s) else None)"

text \<open>
  \<open>atob\<close>, the forgiving base64 decoder of the HTML standard: ASCII whitespace is
  removed; when the length is a multiple of four, one or two trailing \<open>=\<close> are
  removed; a length of 1 modulo 4 and any code unit outside the alphabet fail.
\<close>

definition ascii_whitespace :: "nat \<Rightarrow> bool" where
  "ascii_whitespace c = (c = 9 \<or> c = 10 \<or> c = 12 \<or> c = 13 \<or> c = 32)"

definition strip_padding :: "jsstring \<Rightarrow> jsstring" where
  "strip_padding d =
     (if d \<noteq> [] \<and> last d = 61
      then (if butlast d \<noteq> [] \<and> last (butlast d) = 61 then butlast (butlast d) else butlast d)
      else d)"

definition atob :: "jsstring \<Rightarrow> jsstring option" where
  "atob data =
     (let d1 = filter (\<lambda>c. \<not> ascii_whitespace c) data;
          d2 = (if length d1 mod 4 = 0 then strip_padding d1 else d1)
      in if length d2 mod 4 = 1 then None
         else map_option b64dec (those (map b64idx d2)))"

section \<open>Token codec: segment encoding (src/lib/encrypt.ts)\<close>

text \<open>The loop \<open>while (str.length % 4) str += '='\<close>.\<close>

function add_padding :: "jsstring \<Rightarrow> jsstring" where
  "add_padding str = (if length str mod 4 \<noteq> 0 then add_padding (str @ [61]) else str)"
  by pat_completeness auto
termination
proof (relation "measure (\<lambda>s. (4 - length s mod 4) mod 4)")
  show "wf (measure (\<lambda>s::jsstring. (4 - length s mod 4) mod 4))"
    by simp
next
  fix str :: jsstring
  assume a: "length str mod 4 \<noteq> 0"
  have b: "length str mod 4 < 4"
    by simp
  from a b have "(4 - Suc (length str) mod 4) mod 4 < (4 - length str mod 4) mod 4"
    by (simp add: mod_Suc) arith
  then show "(str @ [61], str) \<in> measure (\<lambda>s. (4 - length s mod 4) mod 4)"
    by simp
qed

declare add_padding.simps [simp del]

definition replace_all :: "nat \<Rightarrow> nat \<Rightarrow> jsstring \<Rightarrow> jsstring" where
  "replace_all a b s = map (\<lambda>c. if c = a then b else c) s"

definition base64UrlDecode :: "jsstring \<Rightarrow> jsstring option" where
  "base64UrlDecode str = atob (add_padding (replace_all 95 47 (replace_all 45 43 str)))"

definition base64UrlEncode :: "jsstring \<Rightarrow> jsstring option" where
  "base64UrlEncode str =
     map_option (\<lambda>e. filter (\<lambda>c. c \<noteq> 61) (replace_all 47 95 (replace_all 43 45 e))) (btoa str)"

text \<open>The code unit that \<open>base64UrlEncode\<close> writes for a code unit of the base64 text.\<close>

definition urlsafe :: "nat \<Rightarrow> nat" where
  "urlsafe c = (if c = 43 then 45 else if c = 47 then 95 else c)"

section \<open>JavaScript values\<close>

text \<open>
  The values that \<open>JSON.parse\<close> returns. Numbers are modelled as integers (the
  numbers of the token claims are whole seconds); an object is the list of its own
  properties in the order of their enumeration. A property read returns \<open>None\<close> for \<open>undefined\<close>.
\<close>

datatype json =
    JNull
  | JBool bool
  | JNum int
  | JStr jsstring
  | JArr "json list"
  | JObj "(jsstring \<times> json) list"

fun truthy :: "json \<Rightarrow> bool" where
  "truthy JNull = False"
| "truthy (JBool b) = b"
| "truthy (JNum n) = (n \<noteq> 0)"
| "truthy (JStr s) = (s \<noteq> [])"
| "truthy (JArr xs) = True"
| "truthy (JObj kvs) = True"

fun truthy_opt :: "json option \<Rightarrow> bool" where
  "truthy_opt None = False"
| "truthy_opt (Some v) = truthy v"

text \<open>\<open>payload.name\<close> for the property names the code reads (none of them inherited).\<close>

fun get_prop :: "json \<Rightarrow> jsstring \<Rightarrow> json option" where
  "get_prop (JObj kvs) k = map_of kvs k"
| "get_prop v k = None"

text \<open>\<open>a || b\<close> where \<open>a\<close> is a property read and \<open>b\<close> a value.\<close>

fun js_or :: "json option \<Rightarrow> json \<Rightarrow> json" where
  "js_or None d = d"
| "js_or (Some v) d = (if truthy v then v else d)"

text \<open>
  The builtins of the runtime that the code calls and that are not modelled further:
  \<open>JSON.parse\<close> (\<open>None\<close> when it throws SyntaxError), \<open>JSON.stringify\<close>, the numeric
  coercion of non-empty strings, arrays and objects (\<open>None\<close> for NaN), and the text
  that \<open>Date.prototype.toISOString\<close> prints for a time value in range.
\<close>

record js_env =
  JSON_parse :: "jsstring \<Rightarrow> json option"
  JSON_stringify :: "json \<Rightarrow> jsstring"
  ToNumber_other :: "json \<Rightarrow> int option"
  iso_format :: "int \<Rightarrow> jsstring"

fun to_number :: "js_env \<Rightarrow> json option \<Rightarrow> int option" where
  "to_number E None = None"
| "to_number E (Some JNull) = Some 0"
| "to_number E (Some (JBool b)) = Some (if b then 1 else 0)"
| "to_number E (Some (JNum n)) = Some n"
| "to_number E (Some (JStr s)) = (if s = [] then Some 0 else ToNumber_other E (JStr s))"
| "to_number E (Some v) = ToNumber_other E v"

text \<open>\<open>a <= n\<close> for a property read \<open>a\<close> and a number \<open>n\<close>: false when \<open>a\<close> coerces to NaN.\<close>

definition js_le :: "js_env \<Rightarrow> json option \<Rightarrow> int \<Rightarrow> bool" where
  "js_le E a n = (case to_number E a of None \<Rightarrow> False | Some x \<Rightarrow> x \<le> n)"

text \<open>\<open>new Date(t).toISOString()\<close>: RangeError (\<open>None\<close>) for NaN and outside the date range.\<close>

definition toISOString :: "js_env \<Rightarrow> int option \<Rightarrow> jsstring option" where
  "toISOString E t =
     (case t of None \<Rightarrow> None
      | Some ms \<Rightarrow> if \<bar>ms\<bar> \<le> 8640000000000000 then Some (iso_format E ms) else None)"

text \<open>\<open>str.split(sep)\<close> for a separator of one code unit; the result is never empty.\<close>

fun split_on :: "nat \<Rightarrow> jsstring \<Rightarrow> jsstring list" where
  "split_on sep [] = [[]]"
| "split_on sep (c # cs) =
     (if c = sep then [] # split_on sep cs
      else (case split_on sep cs of p # ps \<Rightarrow> (c # p) # ps | [] \<Rightarrow> [[c]]))"

section \<open>Token codec: decoding (src/lib/encrypt.ts)\<close>

text \<open>
  \<open>decodeTokenPayload\<close>: every exception raised inside the \<open>try\<close> block is caught and
  turned into \<open>null\<close>; the console output is not modelled.
\<close>

definition decodeTokenPayload :: "js_env \<Rightarrow> jsstring \<Rightarrow> json" where
  "decodeTokenPayload E token =
     (if 46 \<notin> set token then JNull
      else let parts = split_on 46 token in
        if length parts \<noteq> 3 then JNull
        else (case base64UrlDecode (parts ! 1) of
                None \<Rightarrow> JNull
              | Some text \<Rightarrow> (case JSON_parse E text of None \<Rightarrow> JNull | Some payload \<Rightarrow> payload)))"

text \<open>The deprecated alias \<open>decodeJWT\<close> of src/lib/encrypt.ts.\<close>

definition decodeJWT :: "js_env \<Rightarrow> jsstring \<Rightarrow> json" where
  "decodeJWT E token = decodeTokenPayload E token"

text \<open>\<open>decodeJWT\<close> of src/lib/jwt.ts, the function the JWT decoder page imports.\<close>

definition jwt_decodeJWT :: "js_env \<Rightarrow> jsstring \<Rightarrow> json" where
  "jwt_decodeJWT E token =
     (let parts = split_on 46 token in
        if length parts \<noteq> 3 then JNull
        else (case atob (parts ! 1) of
                None \<Rightarrow> JNull
              | Some text \<Rightarrow> (case JSON_parse E text of None \<Rightarrow> JNull | Some payload \<Rightarrow> payload)))"

text \<open>
  \<open>isTokenExpired\<close>; \<open>now_ms\<close> is the value of \<open>Date.now()\<close>, and \<open>div\<close> on integers
  rounds down as \<open>Math.floor\<close> does.
\<close>

definition isTokenExpired :: "js_env \<Rightarrow> int \<Rightarrow> jsstring \<Rightarrow> int \<Rightarrow> bool" where
  "isTokenExpired E now_ms token bufferMinutes =
     (let payload = decodeTokenPayload E token in
        if \<not> truthy payload \<or> \<not> truthy_opt (get_prop payload (js ''exp'')) then True
        else let now = now_ms div 1000;
                 bufferSeconds = bufferMinutes * 60
             in js_le E (get_prop payload (js ''exp'')) (now + bufferSeconds))"

text \<open>The default argument \<open>bufferMinutes = 5\<close>.\<close>

definition isTokenExpired_default :: "js_env \<Rightarrow> int \<Rightarrow> jsstring \<Rightarrow> bool" where
  "isTokenExpired_default E now_ms token = isTokenExpired E now_ms token 5"

text \<open>Decimal text of a number, as a template literal prints an integer.\<close>

fun show_nat :: "nat \<Rightarrow> jsstring" where
  "show_nat n = (if n < 10 then [48 + n] else show_nat (n div 10) @ [48 + n mod 10])"

declare show_nat.simps [simp del]

definition show_int :: "int \<Rightarrow> jsstring" where
  "show_int i = (if i < 0 then 45 # show_nat (nat (- i)) else show_nat (nat i))"

record TokenSummary =
  valid :: bool
  expired :: bool
  type :: json
  userId :: "json option"
  expiresIn :: jsstring
  roleProfile :: "json option"
  expiresAt :: jsstring

datatype js_error = RangeError

text \<open>
  \<open>getTokenSummary\<close>; \<open>now_ms\<close> and \<open>now_ms2\<close> are its two reads of \<open>Date.now()\<close>.
  A number that is NaN is \<open>None\<close>: \<open>Math.max(0, NaN)\<close> is NaN and \<open>NaN > 0\<close> is false.
\<close>

definition getTokenSummary ::
  "js_env \<Rightarrow> int \<Rightarrow> int \<Rightarrow> jsstring \<Rightarrow> js_error + TokenSummary option" where
  "getTokenSummary E now_ms now_ms2 token =
     (let payload = decodeTokenPayload E token in
        if \<not> truthy payload then Inr None
        else
          let now = now_ms div 1000;
              isExpired = js_le E (get_prop payload (js ''exp'')) now;
              expiryTime = map_option (\<lambda>x. x * 1000) (to_number E (get_prop payload (js ''exp'')));
              timeRemaining = map_option (\<lambda>t. max 0 (t - now_ms2)) expiryTime;
              expiresIn =
                (case timeRemaining of
                   None \<Rightarrow> js ''expired''
                 | Some t \<Rightarrow>
                     if t > 0 then show_int (t div 1000 div 60) @ js '' minutes''
                     else js ''expired'')
          in (case toISOString E expiryTime of
                None \<Rightarrow> Inl RangeError
              | Some iso_text \<Rightarrow>
                  Inr (Some \<lparr>valid = \<not> isExpired,
                             expired = isExpired,
                             type = js_or (get_prop payload (js ''token_type'')) (JStr (js ''access'')),
                             userId = get_prop payload (js ''user_id''),
                             expiresIn = expiresIn,
                             roleProfile = get_prop payload (js ''role_profile''),
                             expiresAt = iso_text\<rparr>)))"

section \<open>Token codec: mock construction (src/lib/encrypt.ts)\<close>

definition createJWTHeader :: "js_env \<Rightarrow> jsstring option" where
  "createJWTHeader E =
     base64UrlEncode
       (JSON_stringify E (JObj [(js ''alg'', JStr (js ''HS256'')), (js ''typ'', JStr (js ''JWT''))]))"

text \<open>
  The order of the own properties of an object: the keys that are array indices (the
  decimal text, without leading zero, of a number below \<open>2\<^sup>3\<^sup>2 - 1\<close>) in ascending
  numeric order, then the other keys in the order in which they were added.
\<close>

definition index_value :: "jsstring \<Rightarrow> nat" where
  "index_value k = foldl (\<lambda>n d. 10 * n + (d - 48)) 0 k"

definition array_index :: "jsstring \<Rightarrow> bool" where
  "array_index k =
     (case k of
        [] \<Rightarrow> False
      | d # ds \<Rightarrow>
          list_all (\<lambda>c. 48 \<le> c \<and> c \<le> 57) k \<and> (ds = [] \<or> d \<noteq> 48)
          \<and> index_value k < 4294967295)"

definition own_property_order :: "(jsstring \<times> json) list \<Rightarrow> (jsstring \<times> json) list" where
  "own_property_order kvs =
     sort_key (\<lambda>kv. index_value (fst kv)) (filter (\<lambda>kv. array_index (fst kv)) kvs)
     @ filter (\<lambda>kv. \<not> array_index (fst kv)) kvs"

text \<open>
  An object literal that ends in \<open>...payload\<close>: each own property of \<open>payload\<close>, in
  order, replaces the value of a key already present and is added otherwise.
\<close>

definition spread :: "(jsstring \<times> json) list \<Rightarrow> (jsstring \<times> json) list \<Rightarrow> (jsstring \<times> json) list" where
  "spread obj payload =
     own_property_order (foldl (\<lambda>acc kv. AList.update (fst kv) (snd kv) acc) obj payload)"

definition default_access_scope :: json where
  "default_access_scope =
     JObj [(js ''level'', JStr (js ''facility'')),
           (js ''organization'', JStr (js ''ORG-001'')),
           (js ''region'', JNull),
           (js ''facilities'', JArr [JStr (js ''FAC-001'')]),
           (js ''supplier_id'', JNull),
           (js ''practitioner_id'', JNull),
           (js ''org_company_id'', JNull),
           (js ''region_company_id'', JNull)]"

text \<open>
  The local \<open>fullPayload\<close> of \<open>createMockToken\<close>; \<open>now\<close> is
  \<open>Math.floor(Date.now() / 1000)\<close>, and \<open>jti\<close> and \<open>sid\<close> are the two results of
  \<open>generateRandomId()\<close>.
\<close>

definition fullPayload ::
  "int \<Rightarrow> jsstring \<Rightarrow> jsstring \<Rightarrow> (jsstring \<times> json) list \<Rightarrow> (jsstring \<times> json) list" where
  "fullPayload now jti sid payload =
     spread
       [(js ''iss'', JStr (js ''HealthPro ERP Backend'')),
        (js ''sub'', js_or (map_of payload (js ''user_id'')) (JStr (js ''test-user''))),
        (js ''iat'', JNum now),
        (js ''exp'',
           JNum (now + (if map_of payload (js ''token_type'') = Some (JStr (js ''refresh''))
                        then 24 * 60 * 60 else 30 * 60))),
        (js ''jti'', JStr jti),
        (js ''session_id'', js_or (map_of payload (js ''session_id'')) (JStr sid)),
        (js ''user_id'', js_or (map_of payload (js ''user_id'')) (JStr (js ''test-user@example.com''))),
        (js ''role_profile'', js_or (map_of payload (js ''role_profile'')) (JStr (js ''Healthcare Provider''))),
        (js ''access_scope'', js_or (map_of payload (js ''access_scope'')) default_access_scope),
        (js ''token_type'', js_or (map_of payload (js ''token_type'')) (JStr (js ''access'')))]
       payload"

text \<open>
  \<open>createMockToken\<close>: \<open>None\<close> when \<open>btoa\<close> throws InvalidCharacterError, which the
  function does not catch.
\<close>

definition createMockToken ::
  "js_env \<Rightarrow> int \<Rightarrow> jsstring \<Rightarrow> jsstring \<Rightarrow> (jsstring \<times> json) list \<Rightarrow> jsstring option" where
  "createMockToken E now_ms jti sid payload =
     (let now = now_ms div 1000 in
        case createJWTHeader E of
          None \<Rightarrow> None
        | Some header \<Rightarrow>
            (case base64UrlEncode (JSON_stringify E (JObj (fullPayload now jti sid payload))) of
               None \<Rightarrow> None
             | Some encodedPayload \<Rightarrow>
                 Some (header @ [46] @ encodedPayload @ [46] @ js ''UNSIGNED_TOKEN_FOR_TESTING_ONLY'')))"

section \<open>Envelope codec (src/lib/encrypt.ts and the decrypt module)\<close>

text \<open>
  \<open>String.prototype.trim\<close>: white space and line terminators are removed at both ends.
\<close>

definition js_whitespace :: "nat \<Rightarrow> bool" where
  "js_whitespace c =
     (c = 9 \<or> c = 10 \<or> c = 11 \<or> c = 12 \<or> c = 13 \<or> c = 32 \<or> c = 160 \<or> c = 5760
      \<or> (8192 \<le> c \<and> c \<le> 8202) \<or> c = 8232 \<or> c = 8233 \<or> c = 8239 \<or> c = 8287
      \<or> c = 12288 \<or> c = 65279)"

definition trim :: "jsstring \<Rightarrow> jsstring" where
  "trim s = rev (dropWhile js_whitespace (rev (dropWhile js_whitespace s)))"

text \<open>
  \<open>forge.util.encode64\<close> and \<open>forge.util.decode64\<close> of the node-forge library, which
  is a dependency and not part of the sources. The encoder is base64 with padding of a
  binary string. The decoder removes every code unit outside the alphabet and \<open>=\<close>,
  looks the others up in the table \<open>_base64Idx\<close>, where \<open>=\<close> has the index 64, and
  decodes them in groups of four: the first character of a group always, the second
  unless the third index is 64, the third unless the fourth is. An index missing at the
  end of the input is \<open>undefined\<close>, which the bit operations read as 0 and which is not
  64.
\<close>

definition encode64 :: "jsstring \<Rightarrow> jsstring" where
  "encode64 s = b64enc s"

definition base64Idx :: "nat \<Rightarrow> nat option" where
  "base64Idx c = (if c = 61 then Some 64 else b64idx c)"

definition decode_group :: "nat \<Rightarrow> nat \<Rightarrow> nat \<Rightarrow> nat \<Rightarrow> jsstring" where
  "decode_group enc1 enc2 enc3 enc4 =
     (push_bit 2 enc1 OR drop_bit 4 enc2)
     # (if enc3 \<noteq> 64
        then (push_bit 4 (enc2 AND 15) OR drop_bit 2 enc3)
             # (if enc4 \<noteq> 64 then [push_bit 6 (enc3 AND 3) OR enc4] else [])
        else [])"

fun decode_groups :: "nat list \<Rightarrow> jsstring" where
  "decode_groups (enc1 # enc2 # enc3 # enc4 # rest) =
     decode_group enc1 enc2 enc3 enc4 @ decode_groups rest"
| "decode_groups [enc1, enc2, enc3] = decode_group enc1 enc2 enc3 0"
| "decode_groups [enc1, enc2] = decode_group enc1 enc2 0 0"
| "decode_groups [enc1] = decode_group enc1 0 0 0"
| "decode_groups [] = []"

definition decode64 :: "jsstring \<Rightarrow> jsstring" where
  "decode64 input = decode_groups (List.map_filter base64Idx input)"

text \<open>
  The other primitives of node-forge enter as parameters: PEM parsing (\<open>None\<close> when it
  throws), RSA-OAEP encryption of a message under a seed of random bytes and decryption
  (\<open>None\<close> when they throw), AES-CBC with PKCS#7 padding, and the UTF-8 codec of the byte
  buffers. Decryption distinguishes an exception of the library from \<open>finish()\<close>
  returning false.
\<close>

datatype decipher_result = DecipherThrows | FinishFalse | Plain jsstring

record ('pub, 'priv) forge =
  publicKeyFromPem :: "jsstring \<Rightarrow> 'pub option"
  privateKeyFromPem :: "jsstring \<Rightarrow> 'priv option"
  rsa_oaep_encrypt :: "'pub \<Rightarrow> jsstring \<Rightarrow> jsstring \<Rightarrow> jsstring option"
  rsa_oaep_decrypt :: "'priv \<Rightarrow> jsstring \<Rightarrow> jsstring option"
  aes_cbc_encrypt :: "jsstring \<Rightarrow> jsstring \<Rightarrow> jsstring \<Rightarrow> jsstring"
  aes_cbc_decrypt :: "jsstring \<Rightarrow> jsstring \<Rightarrow> jsstring \<Rightarrow> decipher_result"
  encodeUtf8 :: "jsstring \<Rightarrow> jsstring"
  decodeUtf8 :: "jsstring \<Rightarrow> jsstring option"

text \<open>
  The four errors the code throws itself, and the exceptions of the library and of
  \<open>JSON.parse\<close> that it lets through.
\<close>

datatype envelope_error =
    PublicKeyNotDefined
  | PrivateKeyNotDefined
  | InvalidFormat
  | AesDecryptionFailed
  | PemError
  | RsaError
  | CipherError
  | Utf8Error
  | JsonSyntaxError

text \<open>
  \<open>encryptDataWithRSA_AES\<close>; \<open>aesKey\<close> and \<open>iv\<close> are the results of
  \<open>forge.random.getBytesSync(32)\<close> and \<open>getBytesSync(16)\<close>, and \<open>seed1\<close>, \<open>seed2\<close> the
  random bytes that the two OAEP encryptions draw.
\<close>

definition encryptDataWithRSA_AES ::
  "('pub, 'priv) forge \<Rightarrow> js_env \<Rightarrow> json \<Rightarrow> jsstring \<Rightarrow> jsstring \<Rightarrow> jsstring \<Rightarrow> jsstring \<Rightarrow> jsstring
     \<Rightarrow> envelope_error + jsstring" where
  "encryptDataWithRSA_AES F E payload publicKeyPem aesKey iv seed1 seed2 =
     (let jsonData = JSON_stringify E payload;
          encryptedJsonData = encode64 (aes_cbc_encrypt F aesKey iv (encodeUtf8 F jsonData))
      in if publicKeyPem = [] then Inl PublicKeyNotDefined
         else (case publicKeyFromPem F (trim publicKeyPem) of
                 None \<Rightarrow> Inl PemError
               | Some publicKey \<Rightarrow>
                   (case rsa_oaep_encrypt F publicKey (encode64 aesKey) seed1 of
                      None \<Rightarrow> Inl RsaError
                    | Some wrappedKey \<Rightarrow>
                        (case rsa_oaep_encrypt F publicKey (encode64 iv) seed2 of
                           None \<Rightarrow> Inl RsaError
                         | Some wrappedIv \<Rightarrow>
                             Inr (encode64 (encode64 wrappedKey @ [58] @ encode64 wrappedIv
                                            @ [58] @ encryptedJsonData))))))"

text \<open>
  The random generator of the library, \<open>forge.random\<close>: it is modelled by the infinite
  sequence of the bytes it yields, and its state by the number of bytes drawn so far.
  \<open>getBytesSync(n)\<close> in the state \<open>pos\<close> returns the next \<open>n\<close> bytes and leaves the
  generator in the state \<open>pos + n\<close>.
\<close>

definition getBytesSync :: "(nat \<Rightarrow> char) \<Rightarrow> nat \<Rightarrow> nat \<Rightarrow> jsstring" where
  "getBytesSync tape pos n = map (\<lambda>i. of_char (tape i)) [pos..<pos + n]"

text \<open>
  A call of \<open>encryptDataWithRSA_AES\<close> in a state of the generator. The call draws the
  key (line 7) and the IV (line 8) itself, and the library draws the seeds of the two
  OAEP encryptions, of \<open>seedLen\<close> bytes each, from the same generator. A call that
  returns leaves the generator behind these draws; the state after a call that throws
  is not modelled.
\<close>

definition encryptDataWithRSA_AES_call ::
  "('pub, 'priv) forge \<Rightarrow> js_env \<Rightarrow> (nat \<Rightarrow> char) \<Rightarrow> nat \<Rightarrow> json \<Rightarrow> jsstring \<Rightarrow> nat
     \<Rightarrow> envelope_error + jsstring \<times> nat" where
  "encryptDataWithRSA_AES_call F E tape seedLen payload publicKeyPem pos =
     (let aesKey = getBytesSync tape pos 32;
          iv = getBytesSync tape (pos + 32) 16;
          seed1 = getBytesSync tape (pos + 48) seedLen;
          seed2 = getBytesSync tape (pos + 48 + seedLen) seedLen
      in case encryptDataWithRSA_AES F E payload publicKeyPem aesKey iv seed1 seed2 of
           Inl e \<Rightarrow> Inl e
         | Inr transport \<Rightarrow> Inr (transport, pos + 48 + 2 * seedLen))"

text \<open>
  \<open>decryptDataWithRSA_AES\<close>; the destructuring \<open>[a, b, c] = decodedCombined.split(":")\<close>
  takes the first three parts, a missing one being \<open>undefined\<close>, which is falsy as the
  empty string is.
\<close>

definition decryptDataWithRSA_AES ::
  "('pub, 'priv) forge \<Rightarrow> js_env \<Rightarrow> jsstring \<Rightarrow> jsstring \<Rightarrow> envelope_error + json" where
  "decryptDataWithRSA_AES F E encrypted privateKeyPem =
     (if privateKeyPem = [] then Inl PrivateKeyNotDefined
      else (case privateKeyFromPem F (trim privateKeyPem) of
              None \<Rightarrow> Inl PemError
            | Some privateKey \<Rightarrow>
                (case split_on 58 (decode64 encrypted) of
                   encryptedAesKey # encryptedIv # encryptedData # ignored \<Rightarrow>
                     if encryptedAesKey = [] \<or> encryptedIv = [] \<or> encryptedData = []
                     then Inl InvalidFormat
                     else (case rsa_oaep_decrypt F privateKey (decode64 encryptedAesKey) of
                             None \<Rightarrow> Inl RsaError
                           | Some key64 \<Rightarrow>
                               (case rsa_oaep_decrypt F privateKey (decode64 encryptedIv) of
                                  None \<Rightarrow> Inl RsaError
                                | Some iv64 \<Rightarrow>
                                    (case aes_cbc_decrypt F (decode64 key64) (decode64 iv64)
                                            (decode64 encryptedData) of
                                       DecipherThrows \<Rightarrow> Inl CipherError
                                     | FinishFalse \<Rightarrow> Inl AesDecryptionFailed
                                     | Plain output \<Rightarrow>
                                         (case decodeUtf8 F output of
                                            None \<Rightarrow> Inl Utf8Error
                                          | Some text \<Rightarrow>
                                              (case JSON_parse E text of
                                                 None \<Rightarrow> Inl JsonSyntaxError
                                               | Some v \<Rightarrow> Inr v)))))
                 | fewer \<Rightarrow> Inl InvalidFormat)))"

text \<open>
  What the statements about the envelope assume of the primitives: a key pair matches
  when decryption undoes every successful encryption, whose result is a non-empty
  binary string; the cipher is sound on a plaintext when its ciphertext is a non-empty
  binary string that decrypts to the plaintext; a payload is serialisable when UTF-8
  and \<open>JSON.parse\<close> undo its serialisation.
\<close>

definition matching_keys :: "('pub, 'priv) forge \<Rightarrow> 'pub \<Rightarrow> 'priv \<Rightarrow> bool" where
  "matching_keys F pk sk =
     (\<forall>m seed c. rsa_oaep_encrypt F pk m seed = Some c \<longrightarrow>
        is_bytes c \<and> c \<noteq> [] \<and> rsa_oaep_decrypt F sk c = Some m)"

definition sound_cipher :: "('pub, 'priv) forge \<Rightarrow> jsstring \<Rightarrow> jsstring \<Rightarrow> jsstring \<Rightarrow> bool" where
  "sound_cipher F key iv plain =
     (is_bytes (aes_cbc_encrypt F key iv plain) \<and> aes_cbc_encrypt F key iv plain \<noteq> []
      \<and> aes_cbc_decrypt F key iv (aes_cbc_encrypt F key iv plain) = Plain plain)"

definition serialisable :: "('pub, 'priv) forge \<Rightarrow> js_env \<Rightarrow> json \<Rightarrow> bool" where
  "serialisable F E payload =
     (decodeUtf8 F (encodeUtf8 F (JSON_stringify E payload)) = Some (JSON_stringify E payload)
      \<and> JSON_parse E (JSON_stringify E payload) = Some payload)"

section \<open>A reference serialisation, for concrete instances\<close>

text \<open>
  The compact JSON text of a value, with the escapes that \<open>JSON.stringify\<close> writes, and
  an environment whose parser knows the texts of a given list of values. They give the
  builtins a concrete form where a statement is evaluated on an explicit input.
\<close>

definition hexd :: "nat \<Rightarrow> nat" where
  "hexd n = (if n < 10 then 48 + n else 87 + n)"

definition uesc :: "nat \<Rightarrow> jsstring" where
  "uesc c = [92, 117, hexd (c div 4096 mod 16), hexd (c div 256 mod 16), hexd (c div 16 mod 16), hexd (c mod 16)]"

definition esc :: "nat \<Rightarrow> jsstring" where
  "esc c =
     (if c = 34 then [92, 34]
      else if c = 92 then [92, 92]
      else if c = 8 then [92, 98]
      else if c = 9 then [92, 116]
      else if c = 10 then [92, 110]
      else if c = 12 then [92, 102]
      else if c = 13 then [92, 114]
      else if c < 32 then uesc c
      else [c])"

definition high_surrogate :: "nat \<Rightarrow> bool" where
  "high_surrogate c = (55296 \<le> c \<and> c < 56320)"

definition low_surrogate :: "nat \<Rightarrow> bool" where
  "low_surrogate c = (56320 \<le> c \<and> c < 57344)"

fun quote_body :: "jsstring \<Rightarrow> jsstring" where
  "quote_body [] = []"
| "quote_body [c] = (if high_surrogate c \<or> low_surrogate c then uesc c else esc c)"
| "quote_body (c # d # r) =
     (if high_surrogate c \<and> low_surrogate d then c # d # quote_body r
      else if high_surrogate c \<or> low_surrogate c then uesc c @ quote_body (d # r)
      else esc c @ quote_body (d # r))"

definition quote :: "jsstring \<Rightarrow> jsstring" where
  "quote s = [34] @ quote_body s @ [34]"

fun join_with :: "jsstring \<Rightarrow> jsstring list \<Rightarrow> jsstring" where
  "join_with sep [] = []"
| "join_with sep [x] = x"
| "join_with sep (x # y # r) = x @ sep @ join_with sep (y # r)"

fun json_text :: "json \<Rightarrow> jsstring" where
  "json_text JNull = js ''null''"
| "json_text (JBool b) = (if b then js ''true'' else js ''false'')"
| "json_text (JNum n) = show_int n"
| "json_text (JStr s) = quote s"
| "json_text (JArr vs) = [91] @ join_with [44] (map json_text vs) @ [93]"
| "json_text (JObj kvs) =
     [123] @ join_with [44] (map (\<lambda>kv. quote (fst kv) @ [58] @ json_text (snd kv)) kvs) @ [125]"

definition parse_table :: "json list \<Rightarrow> jsstring \<Rightarrow> json option" where
  "parse_table vs text = find (\<lambda>v. json_text v = text) vs"

definition table_env :: "json list \<Rightarrow> js_env" where
  "table_env vs =
     \<lparr>JSON_parse = parse_table vs, JSON_stringify = json_text,
      ToNumber_other = (\<lambda>v. None), iso_format = show_int\<rparr>"

text \<open>
  The claims \<open>{user_id: "u1"}\<close>, and an environment whose parser knows the payload that
  \<open>createMockToken\<close> builds from them at the time 1000000 ms with the random identifiers
  \<open>r1\<close> and \<open>r2\<close>.
\<close>

definition example_claims :: "(jsstring \<times> json) list" where
  "example_claims = [(js ''user_id'', JStr (js ''u1''))]"

definition example_env :: js_env where
  "example_env = table_env [JObj (fullPayload (1000000 div 1000) (js ''r1'') (js ''r2'') example_claims)]"

text \<open>A generator that counts: its bytes are 0, 1, 2, \<dots>, 255, 0, 1, \<dots>\<close>

definition counting_tape :: "nat \<Rightarrow> char" where
  "counting_tape i = char_of i"

text \<open>
  An instance of the library's primitives that protects nothing: a ciphertext is the
  message behind a marker byte. It shows that the assumptions on the primitives can be
  met together.
\<close>

definition plain_forge :: "(jsstring, jsstring) forge" where
  "plain_forge =
     \<lparr>publicKeyFromPem = Some,
      privateKeyFromPem = Some,
      rsa_oaep_encrypt = (\<lambda>pk m seed. if is_bytes m then Some (1 # m) else None),
      rsa_oaep_decrypt = (\<lambda>sk c. case c of [] \<Rightarrow> None | b # m \<Rightarrow> Some m),
      aes_cbc_encrypt = (\<lambda>key iv plain. 2 # plain),
      aes_cbc_decrypt = (\<lambda>key iv c. case c of [] \<Rightarrow> FinishFalse | b # plain \<Rightarrow> Plain plain),
      encodeUtf8 = (\<lambda>s. s),
      decodeUtf8 = Some\<rparr>"

section \<open>Base64 and the URL-safe alphabet\<close>

lemma b64idx_chr: "i < 64 \<Longrightarrow> b64idx (b64chr i) = Some i"
  unfolding b64idx_def b64chr_def by (simp; arith)

lemma b64chr_not_special: "b64chr i \<noteq> 61" "b64chr i \<noteq> 45" "b64chr i \<noteq> 95" "b64chr i \<noteq> 58" "b64chr i \<noteq> 46"
  "\<not> ascii_whitespace (b64chr i)"
  unfolding b64chr_def ascii_whitespace_def by (simp_all; arith)+

lemma b64sext_lt: "is_bytes s \<Longrightarrow> list_all (\<lambda>i. i < 64) (b64sext s)"
  by (induction s rule: b64sext.induct) (auto simp: is_bytes_def)

lemma b64dec_sext: "is_bytes s \<Longrightarrow> b64dec (b64sext s) = s"
  by (induction s rule: b64sext.induct) (auto simp: is_bytes_def)

lemma length_b64sext: "length (b64sext s) = (4 * length s + 2) div 3"
  by (induction s rule: b64sext.induct) auto

lemma add_padding_eq: "add_padding s = s @ replicate ((4 - length s mod 4) mod 4) 61"
proof (induction s rule: add_padding.induct)
  case (1 str)
  show ?case
  proof (cases "length str mod 4 = 0")
    case True
    then show ?thesis by (simp add: add_padding.simps)
  next
    case False
    have b: "length str mod 4 < 4" by simp
    from False b have "(4 - length str mod 4) mod 4 = Suc ((4 - Suc (length str) mod 4) mod 4)"
      by (simp add: mod_Suc) arith
    with False 1 show ?thesis
      by (simp add: add_padding.simps [of str] replicate_app_Cons_same)
  qed
qed

lemma those_map_Some: "list_all (\<lambda>x. f x = Some (g x)) xs \<Longrightarrow> those (map f xs) = Some (map g xs)"
  by (induction xs) auto

lemma those_b64idx_chr: "list_all (\<lambda>i. i < 64) xs \<Longrightarrow> those (map b64idx (map b64chr xs)) = Some xs"
  by (induction xs) (auto simp: b64idx_chr)

lemma filter_ws_b64: "filter (\<lambda>c. \<not> ascii_whitespace c) (map b64chr xs @ replicate n 61) = map b64chr xs @ replicate n 61"
proof -
  have "\<not> ascii_whitespace 61"
    by (simp add: ascii_whitespace_def)
  then show ?thesis
    by (simp add: filter_id_conv b64chr_not_special)
qed

lemma strip_padding_cases:
  assumes "ys = [] \<or> last ys \<noteq> 61"
  shows "strip_padding ys = ys" "strip_padding (ys @ [61]) = ys" "strip_padding (ys @ [61, 61]) = ys"
proof -
  show "strip_padding ys = ys"
    using assms by (auto simp: strip_padding_def)
  show "strip_padding (ys @ [61]) = ys"
    using assms by (auto simp: strip_padding_def)
  have "butlast (ys @ [61, 61]) = ys @ [61]"
    by (simp add: butlast_append)
  then show "strip_padding (ys @ [61, 61]) = ys"
    by (simp add: strip_padding_def)
qed

lemma strip_padding_b64: "n \<le> 2 \<Longrightarrow> strip_padding (map b64chr xs @ replicate n 61) = map b64chr xs"
proof -
  assume "n \<le> 2"
  then consider "n = 0" | "n = 1" | "n = 2" by arith
  moreover have "map b64chr xs = [] \<or> last (map b64chr xs) \<noteq> 61"
    by (cases "xs = []") (simp_all add: last_map b64chr_not_special)
  ultimately show ?thesis
    by cases (simp_all add: strip_padding_cases numeral_2_eq_2)
qed

lemma length_sext_pad: "(length (b64sext s) + b64padn s) mod 4 = 0"
  by (induction s rule: b64sext.induct) (auto simp: b64padn_def)

lemma length_sext_mod4: "length (b64sext s) mod 4 \<noteq> 1"
  by (induction s rule: b64sext.induct) auto

lemma b64padn_le: "b64padn s \<le> 2"
  unfolding b64padn_def by arith

lemma b64padn_eq: "b64padn s = (4 - length (b64sext s) mod 4) mod 4"
  by (induction s rule: b64sext.induct) (auto simp: b64padn_def)

lemma atob_b64enc: "is_bytes s \<Longrightarrow> atob (b64enc s) = Some s"
proof -
  assume b: "is_bytes s"
  let ?d = "map b64chr (b64sext s)"
  have 1: "filter (\<lambda>c. \<not> ascii_whitespace c) (b64enc s) = b64enc s"
    by (simp only: b64enc_def filter_ws_b64)
  have 2: "length (b64enc s) mod 4 = 0"
    using length_sext_pad [of s] by (simp add: b64enc_def)
  have 3: "strip_padding (b64enc s) = ?d"
    by (simp only: b64enc_def strip_padding_b64 [OF b64padn_le])
  have 4: "length ?d mod 4 \<noteq> 1"
    using length_sext_mod4 [of s] by simp
  have 5: "those (map b64idx ?d) = Some (b64sext s)"
    using b by (simp only: those_b64idx_chr b64sext_lt)
  show ?thesis
    unfolding atob_def Let_def 1 using 2 3 4 5 b by (simp add: b64dec_sext)
qed

lemma urlsafe_chars: "urlsafe (b64chr i) \<noteq> 43" "urlsafe (b64chr i) \<noteq> 47" "urlsafe (b64chr i) \<noteq> 61"
  "urlsafe (b64chr i) \<noteq> 46"
  by (simp_all add: urlsafe_def b64chr_not_special)

lemma urlsafe_inv:
  "(if (if urlsafe (b64chr i) = 45 then 43 else urlsafe (b64chr i)) = 95 then 47
    else (if urlsafe (b64chr i) = 45 then 43 else urlsafe (b64chr i))) = b64chr i"
  by (simp add: urlsafe_def b64chr_not_special)

lemma url_encode_shape:
  "filter (\<lambda>c. c \<noteq> 61) (replace_all 47 95 (replace_all 43 45 (b64enc s))) = map (urlsafe \<circ> b64chr) (b64sext s)"
proof -
  have "replace_all 47 95 (replace_all 43 45 (b64enc s)) = map (urlsafe \<circ> b64chr) (b64sext s) @ replicate (b64padn s) 61"
    by (simp add: replace_all_def b64enc_def urlsafe_def comp_def)
  moreover have "filter (\<lambda>c. c \<noteq> 61) (map (urlsafe \<circ> b64chr) xs) = map (urlsafe \<circ> b64chr) xs" for xs
    by (induction xs) (simp_all add: urlsafe_chars)
  ultimately show ?thesis
    by simp
qed

lemma url_decode_shape:
  "add_padding (replace_all 95 47 (replace_all 45 43 (map (urlsafe \<circ> b64chr) (b64sext s)))) = b64enc s"
proof -
  have "replace_all 95 47 (replace_all 45 43 (map (urlsafe \<circ> b64chr) xs)) = map b64chr xs" for xs
    by (induction xs) (simp_all add: replace_all_def urlsafe_inv)
  then show ?thesis
    by (simp add: add_padding_eq b64enc_def b64padn_eq)
qed

lemma base64Url_codec:
  assumes "is_bytes s"
  shows "base64UrlEncode s = Some (map (urlsafe \<circ> b64chr) (b64sext s))"
    and "base64UrlDecode (map (urlsafe \<circ> b64chr) (b64sext s)) = Some s"
proof -
  show "base64UrlEncode s = Some (map (urlsafe \<circ> b64chr) (b64sext s))"
    using assms by (simp add: base64UrlEncode_def btoa_def url_encode_shape)
  show "base64UrlDecode (map (urlsafe \<circ> b64chr) (b64sext s)) = Some s"
    using assms by (simp only: base64UrlDecode_def url_decode_shape atob_b64enc)
qed

lemma base64UrlEncode_chars:
  assumes "base64UrlEncode s = Some e"
  shows "43 \<notin> set e" "47 \<notin> set e" "61 \<notin> set e" "46 \<notin> set e"
proof -
  from assms have b: "is_bytes s"
    by (simp add: base64UrlEncode_def btoa_def split: if_splits)
  with assms have e: "e = map (urlsafe \<circ> b64chr) (b64sext s)"
    by (simp add: base64Url_codec)
  show "43 \<notin> set e" "47 \<notin> set e" "61 \<notin> set e" "46 \<notin> set e"
    unfolding e using urlsafe_chars by auto
qed

section \<open>Segment codec\<close>

text \<open>
  C10. For every string \<open>s\<close> whose code units are 8-bit characters,
  \<open>base64UrlEncode\<close> returns a text \<open>e\<close> that \<open>base64UrlDecode\<close> maps back to \<open>s\<close>,
  and \<open>e\<close> contains none of the characters \<open>+\<close> (43), \<open>/\<close> (47) and \<open>=\<close> (61).
\<close>

theorem base64Url_roundtrip:
  assumes "is_bytes s"
  shows "\<exists>e. base64UrlEncode s = Some e \<and> base64UrlDecode e = Some s
           \<and> 43 \<notin> set e \<and> 47 \<notin> set e \<and> 61 \<notin> set e"
proof -
  from assms have "base64UrlEncode s = Some (map (urlsafe \<circ> b64chr) (b64sext s))"
    by (rule base64Url_codec)
  moreover from assms have "base64UrlDecode (map (urlsafe \<circ> b64chr) (b64sext s)) = Some s"
    by (rule base64Url_codec)
  ultimately show ?thesis
    using base64UrlEncode_chars by blast
qed

theorem base64Url_roundtrip_witness:
  "is_bytes (js ''{\"a\":1}'')
   \<and> (\<exists>e. base64UrlEncode (js ''{\"a\":1}'') = Some e \<and> base64UrlDecode e = Some (js ''{\"a\":1}'')
           \<and> 43 \<notin> set e \<and> 47 \<notin> set e \<and> 61 \<notin> set e)"
proof -
  have b: "is_bytes (js ''{\"a\":1}'')"
    by (simp add: is_bytes_def js_def)
  from b base64Url_roundtrip [OF b] show ?thesis
    by blast
qed

section \<open>Token decoding\<close>

lemma split_on_not_Nil: "split_on sep s \<noteq> []"
  by (induction s) (auto split: list.splits)

lemma split_on_no_sep: "sep \<notin> set a \<Longrightarrow> split_on sep a = [a]"
  by (induction a) auto

lemma split_on_append: "sep \<notin> set a \<Longrightarrow> split_on sep (a @ sep # r) = a # split_on sep r"
  by (induction a) auto

lemma to_number_falsy: "\<not> truthy v \<Longrightarrow> to_number E (Some v) = Some 0"
  by (cases v) auto

text \<open>
  C6. \<open>decodeTokenPayload\<close> is a total function that returns \<open>null\<close> on an input
  without a dot and on an input whose split on the dot does not give three segments.
\<close>

theorem decodeTokenPayload_malformed:
  assumes "46 \<notin> set token \<or> length (split_on 46 token) \<noteq> 3"
  shows "decodeTokenPayload E token = JNull"
  using assms by (auto simp: decodeTokenPayload_def Let_def)

theorem decodeTokenPayload_malformed_witness:
  "46 \<notin> set (js ''not-a-jwt'')
   \<and> decodeTokenPayload (table_env []) (js ''not-a-jwt'') = JNull
   \<and> length (split_on 46 (js ''a.b'')) = 2
   \<and> decodeTokenPayload (table_env []) (js ''a.b'') = JNull"
proof -
  have 1: "46 \<notin> set (js ''not-a-jwt'')"
    by (simp add: js_def)
  have 2: "length (split_on 46 (js ''a.b'')) = 2"
    by (simp add: js_def)
  from 1 have "decodeTokenPayload (table_env []) (js ''not-a-jwt'') = JNull"
    by (intro decodeTokenPayload_malformed) simp
  moreover from 2 have "decodeTokenPayload (table_env []) (js ''a.b'') = JNull"
    by (intro decodeTokenPayload_malformed) simp
  ultimately show ?thesis
    using 1 2 by (intro conjI)
qed

text \<open>
  C4. At a current time \<open>now_ms\<close> not before the epoch, with
  \<open>now = floor (now_ms / 1000)\<close>, \<open>isTokenExpired\<close> with the default buffer of five
  minutes returns true exactly when the claims have no \<open>exp\<close> or \<open>exp <= now + 300\<close>
  holds. For a numeric \<open>exp\<close> that is \<open>e <= now + 300\<close>: \<open>now - 1\<close>, \<open>now + 299\<close> and
  \<open>now + 300\<close> are expired, and \<open>now + 301\<close> is not.
\<close>

theorem isTokenExpired_boundary:
  assumes "0 \<le> now_ms"
  shows "isTokenExpired_default E now_ms token =
           (get_prop (decodeTokenPayload E token) (js ''exp'') = None
            \<or> js_le E (get_prop (decodeTokenPayload E token) (js ''exp'')) (now_ms div 1000 + 300))
         \<and> (get_prop (decodeTokenPayload E token) (js ''exp'') = Some (JNum e)
              \<longrightarrow> isTokenExpired_default E now_ms token = (e \<le> now_ms div 1000 + 300))
         \<and> (get_prop (decodeTokenPayload E token) (js ''exp'') = None
              \<longrightarrow> isTokenExpired_default E now_ms token)"
proof -
  let ?p = "decodeTokenPayload E token"
  let ?x = "get_prop ?p (js ''exp'')"
  from assms have n: "0 \<le> now_ms div 1000 + 300"
    by (simp add: pos_imp_zdiv_nonneg_iff)
  have falsy: "js_le E (Some v) (now_ms div 1000 + 300)" if "\<not> truthy v" for v
    using that n by (simp add: js_le_def to_number_falsy)
  have nonobj: "?x = None" if "\<not> truthy ?p"
    using that by (cases ?p) auto
  have main: "isTokenExpired_default E now_ms token = (?x = None \<or> js_le E ?x (now_ms div 1000 + 300))"
  proof (cases ?x)
    case None
    then show ?thesis
      by (simp add: isTokenExpired_default_def isTokenExpired_def Let_def)
  next
    case (Some v)
    with nonobj have "truthy ?p"
      by auto
    with Some falsy [of v] show ?thesis
      by (auto simp: isTokenExpired_default_def isTokenExpired_def Let_def)
  qed
  have "isTokenExpired_default E now_ms token = (e \<le> now_ms div 1000 + 300)"
    if "?x = Some (JNum e)"
    using that main by (simp add: js_le_def)
  moreover have "isTokenExpired_default E now_ms token" if "?x = None"
    using that main by simp
  ultimately show ?thesis
    using main by blast
qed

lemma table_env_simps:
  "JSON_parse (table_env (v # vs)) (json_text v) = Some v"
  "JSON_stringify (table_env vs) = json_text"
  by (simp_all add: table_env_def parse_table_def)

lemmas json_text_defs =
  quote_def js_def esc_def high_surrogate_def low_surrogate_def show_int_def show_nat.simps

lemma decode_exp_1000:
  "decodeTokenPayload (table_env [JObj [(js ''exp'', JNum 1000)]]) (js ''e30.eyJleHAiOjEwMDB9.x'')
     = JObj [(js ''exp'', JNum 1000)]"
proof -
  have s: "split_on 46 (js ''e30.eyJleHAiOjEwMDB9.x'') = [js ''e30'', js ''eyJleHAiOjEwMDB9'', js ''x'']"
    by code_simp
  have d: "46 \<in> set (js ''e30.eyJleHAiOjEwMDB9.x'')"
    by code_simp
  have u: "base64UrlDecode (js ''eyJleHAiOjEwMDB9'') = Some (js ''{\"exp\":1000}'')"
    by code_simp
  have j: "js ''{\"exp\":1000}'' = json_text (JObj [(js ''exp'', JNum 1000)])"
    by (simp add: json_text_defs)
  then have p: "JSON_parse (table_env [JObj [(js ''exp'', JNum 1000)]]) (js ''{\"exp\":1000}'')
                  = Some (JObj [(js ''exp'', JNum 1000)])"
    by (simp only: table_env_simps)
  from d show ?thesis
    by (simp add: decodeTokenPayload_def s u p)
qed

theorem isTokenExpired_boundary_witness:
  "(0::int) \<le> 699000 \<and> (0::int) \<le> 700000
   \<and> get_prop (decodeTokenPayload (table_env [JObj [(js ''exp'', JNum 1000)]]) (js ''e30.eyJleHAiOjEwMDB9.x''))
        (js ''exp'') = Some (JNum 1000)
   \<and> \<not> isTokenExpired_default (table_env [JObj [(js ''exp'', JNum 1000)]]) 699000 (js ''e30.eyJleHAiOjEwMDB9.x'')
   \<and> isTokenExpired_default (table_env [JObj [(js ''exp'', JNum 1000)]]) 700000 (js ''e30.eyJleHAiOjEwMDB9.x'')"
proof -
  let ?E = "table_env [JObj [(js ''exp'', JNum 1000)]]"
  let ?t = "js ''e30.eyJleHAiOjEwMDB9.x''"
  have d: "get_prop (decodeTokenPayload ?E ?t) (js ''exp'') = Some (JNum 1000)"
    by (simp add: decode_exp_1000)
  have a: "(0::int) \<le> 699000" and b: "(0::int) \<le> 700000"
    by simp_all
  from d isTokenExpired_boundary [OF a, of ?E ?t 1000] isTokenExpired_boundary [OF b, of ?E ?t 1000]
  show ?thesis
    by (simp add: js_le_def)
qed

text \<open>
  C9. For a token whose \<open>exp\<close> is a number \<open>e\<close> within the range of dates,
  \<open>getTokenSummary\<close> returns a summary whose \<open>expired\<close> flag is \<open>e <= now\<close>, without a
  buffer, and whose \<open>valid\<close> flag is its negation. When \<open>now < e <= now + 300\<close> the
  summary says valid and not expired, while \<open>isTokenExpired\<close> with the default buffer
  returns true at the same instant.
\<close>

theorem getTokenSummary_no_buffer:
  assumes "get_prop (decodeTokenPayload E token) (js ''exp'') = Some (JNum e)"
    and "\<bar>e * 1000\<bar> \<le> 8640000000000000"
  shows "\<exists>s. getTokenSummary E now_ms now_ms2 token = Inr (Some s)
           \<and> expired s = (e \<le> now_ms div 1000)
           \<and> valid s = (\<not> expired s)
           \<and> (now_ms div 1000 < e \<and> e \<le> now_ms div 1000 + 300
                \<longrightarrow> valid s \<and> \<not> expired s \<and> isTokenExpired_default E now_ms token)"
proof -
  let ?p = "decodeTokenPayload E token"
  let ?now = "now_ms div 1000"
  define s where "s =
    \<lparr>valid = \<not> e \<le> ?now, expired = e \<le> ?now,
     type = js_or (get_prop ?p (js ''token_type'')) (JStr (js ''access'')),
     userId = get_prop ?p (js ''user_id''),
     expiresIn = (if max 0 (e * 1000 - now_ms2) > 0
                  then show_int (max 0 (e * 1000 - now_ms2) div 1000 div 60) @ js '' minutes''
                  else js ''expired''),
     roleProfile = get_prop ?p (js ''role_profile''),
     expiresAt = iso_format E (e * 1000)\<rparr>"
  from assms(1) have t: "truthy ?p"
    by (cases ?p) auto
  have iso: "toISOString E (Some (e * 1000)) = Some (iso_format E (e * 1000))"
    using assms(2) by (simp add: toISOString_def)
  have g: "getTokenSummary E now_ms now_ms2 token = Inr (Some s)"
    unfolding getTokenSummary_def Let_def s_def using t assms(1) iso
    by (simp add: js_le_def)
  have x: "isTokenExpired_default E now_ms token"
    if "?now < e" "e \<le> ?now + 300"
    using that assms(1) t
    by (simp add: isTokenExpired_default_def isTokenExpired_def Let_def js_le_def)
  have "expired s = (e \<le> ?now)" "valid s = (\<not> expired s)"
    by (simp_all add: s_def)
  with g x show ?thesis
    by auto
qed

theorem getTokenSummary_no_buffer_witness:
  "get_prop (decodeTokenPayload (table_env [JObj [(js ''exp'', JNum 1000)]]) (js ''e30.eyJleHAiOjEwMDB9.x''))
        (js ''exp'') = Some (JNum 1000)
   \<and> \<bar>1000 * 1000\<bar> \<le> (8640000000000000::int)
   \<and> (900000::int) div 1000 < 1000 \<and> (1000::int) \<le> 900000 div 1000 + 300
   \<and> (\<exists>s. getTokenSummary (table_env [JObj [(js ''exp'', JNum 1000)]]) 900000 900001
              (js ''e30.eyJleHAiOjEwMDB9.x'') = Inr (Some s)
            \<and> valid s \<and> \<not> expired s)
   \<and> isTokenExpired_default (table_env [JObj [(js ''exp'', JNum 1000)]]) 900000 (js ''e30.eyJleHAiOjEwMDB9.x'')"
proof -
  let ?E = "table_env [JObj [(js ''exp'', JNum 1000)]]"
  let ?t = "js ''e30.eyJleHAiOjEwMDB9.x''"
  have d: "get_prop (decodeTokenPayload ?E ?t) (js ''exp'') = Some (JNum 1000)"
    by (simp add: decode_exp_1000)
  have r: "\<bar>1000 * 1000\<bar> \<le> (8640000000000000::int)"
    by simp
  from d getTokenSummary_no_buffer [OF d r, of 900000 900001] show ?thesis
    by auto
qed

text \<open>
  C2. \<open>decodeJWT\<close> of src/lib/jwt.ts passes the claims segment to \<open>atob\<close> as it is. On
  the token \<open>e30.eyJ-IjoxfQ.x\<close>, whose claims segment is the URL-safe encoding of
  \<open>{"~":1}\<close>, it returns \<open>null\<close>, while \<open>decodeTokenPayload\<close> returns what
  \<open>JSON.parse\<close> makes of \<open>{"~":1}\<close>, as the alias \<open>decodeJWT\<close> of src/lib/encrypt.ts does.
\<close>

theorem jwt_decodeJWT_urlsafe_segment:
  "jwt_decodeJWT E (js ''e30.eyJ-IjoxfQ.x'') = JNull
   \<and> decodeTokenPayload E (js ''e30.eyJ-IjoxfQ.x'')
       = (case JSON_parse E (js ''{\"~\":1}'') of None \<Rightarrow> JNull | Some payload \<Rightarrow> payload)
   \<and> decodeJWT E (js ''e30.eyJ-IjoxfQ.x'') = decodeTokenPayload E (js ''e30.eyJ-IjoxfQ.x'')
   \<and> decodeTokenPayload (table_env [JObj [(js ''~'', JNum 1)]]) (js ''e30.eyJ-IjoxfQ.x'')
       = JObj [(js ''~'', JNum 1)]"
proof -
  have s: "split_on 46 (js ''e30.eyJ-IjoxfQ.x'') = [js ''e30'', js ''eyJ-IjoxfQ'', js ''x'']"
    by code_simp
  have a: "atob (js ''eyJ-IjoxfQ'') = None"
    by code_simp
  have u: "base64UrlDecode (js ''eyJ-IjoxfQ'') = Some (js ''{\"~\":1}'')"
    by code_simp
  have d: "46 \<in> set (js ''e30.eyJ-IjoxfQ.x'')"
    by code_simp
  have 1: "jwt_decodeJWT E (js ''e30.eyJ-IjoxfQ.x'') = JNull"
    by (simp add: jwt_decodeJWT_def s a)
  have 2: "decodeTokenPayload E (js ''e30.eyJ-IjoxfQ.x'')
       = (case JSON_parse E (js ''{\"~\":1}'') of None \<Rightarrow> JNull | Some payload \<Rightarrow> payload)" for E
    using d by (simp add: decodeTokenPayload_def s u)
  have "js ''{\"~\":1}'' = json_text (JObj [(js ''~'', JNum 1)])"
    by (simp add: json_text_defs)
  then have 3: "JSON_parse (table_env [JObj [(js ''~'', JNum 1)]]) (js ''{\"~\":1}'') = Some (JObj [(js ''~'', JNum 1)])"
    by (simp only: table_env_simps)
  from 1 2 3 show ?thesis
    by (simp add: decodeJWT_def)
qed

section \<open>Mock tokens\<close>

lemma distinct_own_property_order:
  assumes "distinct (map fst kvs)"
  shows "distinct (map fst (own_property_order kvs))"
proof -
  let ?ix = "filter (\<lambda>kv. array_index (fst kv)) kvs"
  let ?st = "filter (\<lambda>kv. \<not> array_index (fst kv)) kvs"
  from assms have f: "distinct (map fst ?ix)" "distinct (map fst ?st)"
    by (simp_all add: distinct_map_filter)
  then have "distinct (map fst (sort_key (\<lambda>kv. index_value (fst kv)) ?ix))"
    by (simp add: distinct_map)
  moreover have "fst ` set ?ix \<inter> fst ` set ?st = {}"
    by auto
  ultimately show ?thesis
    using f by (simp add: own_property_order_def)
qed

lemma map_of_own_property_order:
  assumes "distinct (map fst kvs)"
  shows "map_of (own_property_order kvs) = map_of kvs"
proof -
  have "set (own_property_order kvs) = set kvs"
    by (auto simp: own_property_order_def)
  with assms distinct_own_property_order [OF assms] show ?thesis
    by (simp add: map_of_inject_set)
qed

lemma distinct_fold_update:
  "distinct (map fst obj) \<Longrightarrow>
   distinct (map fst (foldl (\<lambda>acc kv. AList.update (fst kv) (snd kv) acc) obj payload))"
  by (induction payload arbitrary: obj) (simp_all add: distinct_update)

lemma map_of_fold_update:
  "distinct (map fst payload) \<Longrightarrow>
   map_of (foldl (\<lambda>acc kv. AList.update (fst kv) (snd kv) acc) obj payload) k
     = (case map_of payload k of None \<Rightarrow> map_of obj k | Some v \<Rightarrow> Some v)"
proof (induction payload arbitrary: obj k)
  case Nil
  then show ?case
    by simp
next
  case (Cons kv payload)
  from Cons.prems have d: "distinct (map fst payload)" and n: "map_of payload (fst kv) = None"
    by (auto simp: map_of_eq_None_iff)
  show ?case
  proof (cases "k = fst kv")
    case True
    with n show ?thesis
      by (simp add: Cons.IH [OF d] update_conv')
  next
    case False
    then show ?thesis
      by (simp add: Cons.IH [OF d] update_conv' split: option.splits)
  qed
qed

lemma map_of_spread:
  assumes "distinct (map fst obj)" and "distinct (map fst payload)"
  shows "map_of (spread obj payload) k
           = (case map_of payload k of None \<Rightarrow> map_of obj k | Some v \<Rightarrow> Some v)"
  unfolding spread_def
  by (simp only: map_of_own_property_order [OF distinct_fold_update [OF assms(1)]]
      map_of_fold_update [OF assms(2)])

lemma defaults_distinct:
  "distinct (map fst
     [(js ''iss'', v0 :: 'a), (js ''sub'', v1), (js ''iat'', v2), (js ''exp'', v3), (js ''jti'', v4),
      (js ''session_id'', v5), (js ''user_id'', v6), (js ''role_profile'', v7),
      (js ''access_scope'', v8), (js ''token_type'', v9)])"
  by (simp add: js_def)

lemma segment_no_dot: "46 \<notin> set (map (urlsafe \<circ> b64chr) xs)"
  using urlsafe_chars(4) by auto

lemma signature_no_dot: "46 \<notin> set (js ''UNSIGNED_TOKEN_FOR_TESTING_ONLY'')"
  by (simp add: js_def)

lemma decode_three_segments:
  assumes "46 \<notin> set h" "46 \<notin> set p" "46 \<notin> set g"
  shows "decodeTokenPayload E (h @ [46] @ p @ [46] @ g) =
           (case base64UrlDecode p of
              None \<Rightarrow> JNull
            | Some text \<Rightarrow> (case JSON_parse E text of None \<Rightarrow> JNull | Some payload \<Rightarrow> payload))"
proof -
  have "split_on 46 (h @ [46] @ p @ [46] @ g) = [h, p, g]"
    using assms by (simp add: split_on_append split_on_no_sep)
  then show ?thesis
    by (simp add: decodeTokenPayload_def)
qed

lemma createMockToken_decode:
  assumes "is_bytes (JSON_stringify E (JObj [(js ''alg'', JStr (js ''HS256'')), (js ''typ'', JStr (js ''JWT''))]))"
    and "is_bytes (JSON_stringify E (JObj (fullPayload (now_ms div 1000) jti sid payload)))"
  shows "\<exists>token. createMockToken E now_ms jti sid payload = Some token
           \<and> decodeTokenPayload E token =
               (case JSON_parse E (JSON_stringify E (JObj (fullPayload (now_ms div 1000) jti sid payload))) of
                  None \<Rightarrow> JNull | Some v \<Rightarrow> v)"
proof -
  let ?h = "JSON_stringify E (JObj [(js ''alg'', JStr (js ''HS256'')), (js ''typ'', JStr (js ''JWT''))])"
  let ?p = "JSON_stringify E (JObj (fullPayload (now_ms div 1000) jti sid payload))"
  let ?eh = "map (urlsafe \<circ> b64chr) (b64sext ?h)"
  let ?ep = "map (urlsafe \<circ> b64chr) (b64sext ?p)"
  let ?g = "js ''UNSIGNED_TOKEN_FOR_TESTING_ONLY''"
  have h: "createJWTHeader E = Some ?eh"
    using assms(1) by (simp add: createJWTHeader_def base64Url_codec)
  have p: "base64UrlEncode ?p = Some ?ep"
    using assms(2) by (rule base64Url_codec)
  have c: "createMockToken E now_ms jti sid payload = Some (?eh @ [46] @ ?ep @ [46] @ ?g)"
    by (simp add: createMockToken_def Let_def h p)
  have "decodeTokenPayload E (?eh @ [46] @ ?ep @ [46] @ ?g) =
          (case JSON_parse E ?p of None \<Rightarrow> JNull | Some v \<Rightarrow> v)"
    by (simp only: decode_three_segments [OF segment_no_dot segment_no_dot signature_no_dot]
        base64Url_codec(2) [OF assms(2)] option.case)
  with c show ?thesis
    by blast
qed

lemma createMockToken_throws:
  assumes "\<not> is_bytes (JSON_stringify E (JObj (fullPayload (now_ms div 1000) jti sid payload)))"
  shows "createMockToken E now_ms jti sid payload = None"
  using assms by (simp add: createMockToken_def Let_def base64UrlEncode_def btoa_def split: option.splits)

lemma fullPayload_fields:
  assumes "distinct (map fst payload)"
  shows "map_of (fullPayload now jti sid payload) k =
           (case map_of payload k of
              Some v \<Rightarrow> Some v
            | None \<Rightarrow>
                map_of
                  [(js ''iss'', JStr (js ''HealthPro ERP Backend'')),
                   (js ''sub'', js_or (map_of payload (js ''user_id'')) (JStr (js ''test-user''))),
                   (js ''iat'', JNum now),
                   (js ''exp'',
                      JNum (now + (if map_of payload (js ''token_type'') = Some (JStr (js ''refresh''))
                                   then 24 * 60 * 60 else 30 * 60))),
                   (js ''jti'', JStr jti),
                   (js ''session_id'', js_or (map_of payload (js ''session_id'')) (JStr sid)),
                   (js ''user_id'', js_or (map_of payload (js ''user_id'')) (JStr (js ''test-user@example.com''))),
                   (js ''role_profile'', js_or (map_of payload (js ''role_profile'')) (JStr (js ''Healthcare Provider''))),
                   (js ''access_scope'', js_or (map_of payload (js ''access_scope'')) default_access_scope),
                   (js ''token_type'', js_or (map_of payload (js ''token_type'')) (JStr (js ''access'')))] k)"
  unfolding fullPayload_def by (simp only: map_of_spread [OF defaults_distinct assms] split: option.splits)

lemma keys_not_index:
  "\<not> array_index (js ''iss'')" "\<not> array_index (js ''sub'')" "\<not> array_index (js ''iat'')"
  "\<not> array_index (js ''exp'')" "\<not> array_index (js ''jti'')" "\<not> array_index (js ''session_id'')"
  "\<not> array_index (js ''user_id'')" "\<not> array_index (js ''role_profile'')"
  "\<not> array_index (js ''access_scope'')" "\<not> array_index (js ''token_type'')"
  by (simp_all add: array_index_def js_def)

lemma own_property_order_id:
  "list_all (\<lambda>kv. \<not> array_index (fst kv)) kvs \<Longrightarrow> own_property_order kvs = kvs"
  by (simp add: own_property_order_def list_all_iff filter_id_conv filter_empty_conv)

lemma fullPayload_user_id:
  assumes "u \<noteq> []"
  shows "fullPayload now jti sid [(js ''user_id'', JStr u)] =
     [(js ''iss'', JStr (js ''HealthPro ERP Backend'')),
      (js ''sub'', JStr u),
      (js ''iat'', JNum now),
      (js ''exp'', JNum (now + 30 * 60)),
      (js ''jti'', JStr jti),
      (js ''session_id'', JStr sid),
      (js ''user_id'', JStr u),
      (js ''role_profile'', JStr (js ''Healthcare Provider'')),
      (js ''access_scope'', default_access_scope),
      (js ''token_type'', JStr (js ''access''))]"
proof -
  have k: "js ''user_id'' \<noteq> js ''iss''" "js ''user_id'' \<noteq> js ''sub''" "js ''user_id'' \<noteq> js ''iat''"
    "js ''user_id'' \<noteq> js ''exp''" "js ''user_id'' \<noteq> js ''jti''" "js ''user_id'' \<noteq> js ''session_id''"
    "js ''user_id'' \<noteq> js ''token_type''" "js ''user_id'' \<noteq> js ''role_profile''"
    "js ''user_id'' \<noteq> js ''access_scope''"
    by (simp_all add: js_def)
  have n: "map_of [(js ''user_id'', JStr u)] (js ''token_type'') = None"
    "map_of [(js ''user_id'', JStr u)] (js ''session_id'') = None"
    "map_of [(js ''user_id'', JStr u)] (js ''role_profile'') = None"
    "map_of [(js ''user_id'', JStr u)] (js ''access_scope'') = None"
    "map_of [(js ''user_id'', JStr u)] (js ''user_id'') = Some (JStr u)"
    using k by simp_all
  show ?thesis
    unfolding fullPayload_def spread_def n
    using assms by (simp add: k k [symmetric] own_property_order_id keys_not_index)
qed

lemma example_header_bytes:
  "is_bytes (JSON_stringify example_env (JObj [(js ''alg'', JStr (js ''HS256'')), (js ''typ'', JStr (js ''JWT''))]))"
  by (simp add: example_env_def table_env_simps json_text_defs is_bytes_def)

lemma example_payload_bytes:
  "is_bytes (JSON_stringify example_env
      (JObj (fullPayload (1000000 div 1000) (js ''r1'') (js ''r2'') example_claims)))"
proof -
  have "js ''u1'' \<noteq> []"
    by (simp add: js_def)
  then show ?thesis
    unfolding example_claims_def example_env_def table_env_simps
    by (subst fullPayload_user_id)
      (simp_all add: default_access_scope_def json_text_defs is_bytes_def)
qed

lemma example_payload_parse:
  "JSON_parse example_env (JSON_stringify example_env
      (JObj (fullPayload (1000000 div 1000) (js ''r1'') (js ''r2'') example_claims)))
   = Some (JObj (fullPayload (1000000 div 1000) (js ''r1'') (js ''r2'') example_claims))"
  by (simp only: example_env_def table_env_simps)

lemma example_claims_distinct: "distinct (map fst example_claims)"
  by (simp add: example_claims_def)

lemma wide_payload_not_bytes:
  "\<not> is_bytes (JSON_stringify example_env
      (JObj (fullPayload (1000000 div 1000) (js ''r1'') (js ''r2'') [(js ''user_id'', JStr [26085])])))"
  unfolding example_env_def table_env_simps
  by (subst fullPayload_user_id)
    (simp_all add: default_access_scope_def json_text_defs is_bytes_def)

lemma defaults_lookup:
  fixes v0 v1 v2 v3 v4 v5 v6 v7 v8 v9 :: 'a
  defines "obj \<equiv> [(js ''iss'', v0), (js ''sub'', v1), (js ''iat'', v2), (js ''exp'', v3), (js ''jti'', v4),
                  (js ''session_id'', v5), (js ''user_id'', v6), (js ''role_profile'', v7),
                  (js ''access_scope'', v8), (js ''token_type'', v9)]"
  shows "map_of obj (js ''iss'') = Some v0"
    and "map_of obj (js ''sub'') = Some v1"
    and "map_of obj (js ''iat'') = Some v2"
    and "map_of obj (js ''exp'') = Some v3"
    and "map_of obj (js ''jti'') = Some v4"
    and "map_of obj (js ''session_id'') = Some v5"
    and "map_of obj (js ''user_id'') = Some v6"
    and "map_of obj (js ''role_profile'') = Some v7"
    and "map_of obj (js ''access_scope'') = Some v8"
    and "map_of obj (js ''token_type'') = Some v9"
  unfolding obj_def by (simp_all add: js_def)

text \<open>
  C5, as the code has it. Let \<open>C\<close> be a claims object with distinct keys, such that the
  serialisations of the header and of the full payload consist of 8-bit characters and
  \<open>JSON.parse\<close> restores the full payload from its serialisation. Then
  \<open>createMockToken\<close> returns a token, and \<open>decodeTokenPayload\<close> returns from it an
  object in which every field of \<open>C\<close> has the value it has in \<open>C\<close>, and in which a
  recognised field that \<open>C\<close> does not have has its default: \<open>iss\<close> the fixed issuer,
  \<open>sub\<close> the \<open>user_id\<close> of \<open>C\<close> when that is truthy and \<open>test-user\<close> otherwise,
  \<open>iat = now\<close>, \<open>exp = now + 1800\<close>, or \<open>now + 86400\<close> when the \<open>token_type\<close> of \<open>C\<close> is
  \<open>refresh\<close>, \<open>jti\<close> and \<open>session_id\<close> the two random identifiers, \<open>access_scope\<close> the
  fixed structure, and \<open>user_id\<close>, \<open>role_profile\<close> and \<open>token_type\<close> their fixed values.
\<close>

theorem createMockToken_roundtrip:
  assumes "distinct (map fst C)"
    and "is_bytes (JSON_stringify E (JObj [(js ''alg'', JStr (js ''HS256'')), (js ''typ'', JStr (js ''JWT''))]))"
    and "is_bytes (JSON_stringify E (JObj (fullPayload (now_ms div 1000) jti sid C)))"
    and "JSON_parse E (JSON_stringify E (JObj (fullPayload (now_ms div 1000) jti sid C)))
           = Some (JObj (fullPayload (now_ms div 1000) jti sid C))"
  shows "\<exists>token claims.
           createMockToken E now_ms jti sid C = Some token
           \<and> decodeTokenPayload E token = JObj claims
           \<and> (\<forall>k v. map_of C k = Some v \<longrightarrow> map_of claims k = Some v)
           \<and> (map_of C (js ''iss'') = None
                \<longrightarrow> map_of claims (js ''iss'') = Some (JStr (js ''HealthPro ERP Backend'')))
           \<and> (map_of C (js ''sub'') = None
                \<longrightarrow> map_of claims (js ''sub'')
                      = Some (js_or (map_of C (js ''user_id'')) (JStr (js ''test-user''))))
           \<and> (map_of C (js ''iat'') = None
                \<longrightarrow> map_of claims (js ''iat'') = Some (JNum (now_ms div 1000)))
           \<and> (map_of C (js ''exp'') = None
                \<longrightarrow> map_of claims (js ''exp'')
                      = Some (JNum (now_ms div 1000
                                    + (if map_of C (js ''token_type'') = Some (JStr (js ''refresh''))
                                       then 86400 else 1800))))
           \<and> (map_of C (js ''jti'') = None \<longrightarrow> map_of claims (js ''jti'') = Some (JStr jti))
           \<and> (map_of C (js ''session_id'') = None
                \<longrightarrow> map_of claims (js ''session_id'') = Some (JStr sid))
           \<and> (map_of C (js ''user_id'') = None
                \<longrightarrow> map_of claims (js ''user_id'') = Some (JStr (js ''test-user@example.com'')))
           \<and> (map_of C (js ''role_profile'') = None
                \<longrightarrow> map_of claims (js ''role_profile'') = Some (JStr (js ''Healthcare Provider'')))
           \<and> (map_of C (js ''access_scope'') = None
                \<longrightarrow> map_of claims (js ''access_scope'') = Some default_access_scope)
           \<and> (map_of C (js ''token_type'') = None
                \<longrightarrow> map_of claims (js ''token_type'') = Some (JStr (js ''access'')))"
proof -
  let ?full = "fullPayload (now_ms div 1000) jti sid C"
  have "\<exists>token. createMockToken E now_ms jti sid C = Some token
           \<and> decodeTokenPayload E token = JObj ?full"
    using createMockToken_decode [OF assms(2) assms(3)] by (simp only: assms(4) option.case)
  then obtain token where t: "createMockToken E now_ms jti sid C = Some token"
    and d: "decodeTokenPayload E token = JObj ?full"
    by blast
  note f = fullPayload_fields [OF assms(1), of "now_ms div 1000" jti sid]
  have 0: "\<forall>k v. map_of C k = Some v \<longrightarrow> map_of ?full k = Some v"
    by (simp add: f)
  have 1: "map_of C (js ''iss'') = None
             \<longrightarrow> map_of ?full (js ''iss'') = Some (JStr (js ''HealthPro ERP Backend''))"
    by (simp add: f defaults_lookup del: map_of.simps)
  have 2: "map_of C (js ''sub'') = None
             \<longrightarrow> map_of ?full (js ''sub'') = Some (js_or (map_of C (js ''user_id'')) (JStr (js ''test-user'')))"
    by (simp add: f defaults_lookup del: map_of.simps)
  have 3: "map_of C (js ''iat'') = None \<longrightarrow> map_of ?full (js ''iat'') = Some (JNum (now_ms div 1000))"
    by (simp add: f defaults_lookup del: map_of.simps)
  have 4: "map_of C (js ''exp'') = None
             \<longrightarrow> map_of ?full (js ''exp'')
                   = Some (JNum (now_ms div 1000
                                 + (if map_of C (js ''token_type'') = Some (JStr (js ''refresh''))
                                    then 86400 else 1800)))"
    by (simp add: f defaults_lookup del: map_of.simps)
  have 5: "map_of C (js ''jti'') = None \<longrightarrow> map_of ?full (js ''jti'') = Some (JStr jti)"
    by (simp add: f defaults_lookup del: map_of.simps)
  have 6: "map_of C (js ''session_id'') = None \<longrightarrow> map_of ?full (js ''session_id'') = Some (JStr sid)"
    by (simp add: f defaults_lookup del: map_of.simps)
  have 7: "map_of C (js ''user_id'') = None
             \<longrightarrow> map_of ?full (js ''user_id'') = Some (JStr (js ''test-user@example.com''))"
    by (simp add: f defaults_lookup del: map_of.simps)
  have 8: "map_of C (js ''role_profile'') = None
             \<longrightarrow> map_of ?full (js ''role_profile'') = Some (JStr (js ''Healthcare Provider''))"
    by (simp add: f defaults_lookup del: map_of.simps)
  have 9: "map_of C (js ''access_scope'') = None
             \<longrightarrow> map_of ?full (js ''access_scope'') = Some default_access_scope"
    by (simp add: f defaults_lookup del: map_of.simps)
  have 10: "map_of C (js ''token_type'') = None
             \<longrightarrow> map_of ?full (js ''token_type'') = Some (JStr (js ''access''))"
    by (simp add: f defaults_lookup del: map_of.simps)
  show ?thesis
    by (intro exI [of _ token] exI [of _ ?full] conjI) (fact t d 0 1 2 3 4 5 6 7 8 9 10)+
qed

theorem createMockToken_roundtrip_witness:
  "distinct (map fst example_claims)
   \<and> is_bytes (JSON_stringify example_env
         (JObj [(js ''alg'', JStr (js ''HS256'')), (js ''typ'', JStr (js ''JWT''))]))
   \<and> is_bytes (JSON_stringify example_env
         (JObj (fullPayload (1000000 div 1000) (js ''r1'') (js ''r2'') example_claims)))
   \<and> JSON_parse example_env (JSON_stringify example_env
         (JObj (fullPayload (1000000 div 1000) (js ''r1'') (js ''r2'') example_claims)))
       = Some (JObj (fullPayload (1000000 div 1000) (js ''r1'') (js ''r2'') example_claims))
   \<and> (\<exists>token claims.
         createMockToken example_env 1000000 (js ''r1'') (js ''r2'') example_claims = Some token
         \<and> decodeTokenPayload example_env token = JObj claims
         \<and> map_of claims (js ''user_id'') = Some (JStr (js ''u1''))
         \<and> map_of claims (js ''role_profile'') = Some (JStr (js ''Healthcare Provider''))
         \<and> map_of claims (js ''exp'') = Some (JNum 2800))"
proof -
  have u: "map_of example_claims (js ''user_id'') = Some (JStr (js ''u1''))"
    by (simp add: example_claims_def)
  have n: "map_of example_claims (js ''role_profile'') = None"
    "map_of example_claims (js ''exp'') = None" "map_of example_claims (js ''token_type'') = None"
    by (simp_all add: example_claims_def js_def)
  have "\<exists>token claims.
         createMockToken example_env 1000000 (js ''r1'') (js ''r2'') example_claims = Some token
         \<and> decodeTokenPayload example_env token = JObj claims
         \<and> map_of claims (js ''user_id'') = Some (JStr (js ''u1''))
         \<and> map_of claims (js ''role_profile'') = Some (JStr (js ''Healthcare Provider''))
         \<and> map_of claims (js ''exp'') = Some (JNum 2800)"
    using createMockToken_roundtrip
      [OF example_claims_distinct example_header_bytes example_payload_bytes example_payload_parse]
    apply (elim exE conjE)
    subgoal premises p for token claims
    proof -
      from p(3) u have 1: "map_of claims (js ''user_id'') = Some (JStr (js ''u1''))"
        by simp
      from p(11) n(1) have 2: "map_of claims (js ''role_profile'') = Some (JStr (js ''Healthcare Provider''))"
        by simp
      from p(7) n(2) n(3) have 3: "map_of claims (js ''exp'') = Some (JNum 2800)"
        by simp
      from p(1) p(2) 1 2 3 show ?thesis
        by blast
    qed
    done
  with example_claims_distinct example_header_bytes example_payload_bytes example_payload_parse
  show ?thesis
    by (intro conjI)
qed

text \<open>
  The claim C5 as it is stated fails on the code in two ways. For the claims
  \<open>{user_id: "u1"}\<close>, which have no \<open>sub\<close>, the decoded token has \<open>sub = "u1"\<close> and not
  the placeholder \<open>test-user\<close>. For the claims \<open>{user_id: "\<dots>"}\<close> with the one
  character U+65E5, \<open>createMockToken\<close> throws instead of returning a token.
\<close>

theorem createMockToken_defaults_counterexample:
  "map_of example_claims (js ''sub'') = None
   \<and> map_option (\<lambda>token. get_prop (decodeTokenPayload example_env token) (js ''sub''))
        (createMockToken example_env 1000000 (js ''r1'') (js ''r2'') example_claims)
       = Some (Some (JStr (js ''u1'')))
   \<and> JStr (js ''u1'') \<noteq> JStr (js ''test-user'')
   \<and> createMockToken example_env 1000000 (js ''r1'') (js ''r2'') [(js ''user_id'', JStr [26085])] = None"
proof -
  let ?full = "fullPayload (1000000 div 1000) (js ''r1'') (js ''r2'') example_claims"
  have n: "map_of example_claims (js ''sub'') = None"
    by (simp add: example_claims_def js_def)
  have u: "map_of example_claims (js ''user_id'') = Some (JStr (js ''u1''))"
    by (simp add: example_claims_def)
  have "\<exists>token. createMockToken example_env 1000000 (js ''r1'') (js ''r2'') example_claims = Some token
           \<and> decodeTokenPayload example_env token = JObj ?full"
    using createMockToken_decode [OF example_header_bytes example_payload_bytes]
    by (simp only: example_payload_parse option.case)
  then obtain token where t: "createMockToken example_env 1000000 (js ''r1'') (js ''r2'') example_claims = Some token"
    and d: "decodeTokenPayload example_env token = JObj ?full"
    by blast
  have "map_of ?full (js ''sub'') = Some (JStr (js ''u1''))"
    using n u by (simp add: fullPayload_fields [OF example_claims_distinct] defaults_lookup js_def del: map_of.simps)
  with t d have 1: "map_option (\<lambda>token. get_prop (decodeTokenPayload example_env token) (js ''sub''))
        (createMockToken example_env 1000000 (js ''r1'') (js ''r2'') example_claims)
       = Some (Some (JStr (js ''u1'')))"
    by simp
  have 2: "JStr (js ''u1'') \<noteq> JStr (js ''test-user'')"
    by (simp add: js_def)
  have 3: "createMockToken example_env 1000000 (js ''r1'') (js ''r2'') [(js ''user_id'', JStr [26085])] = None"
    by (rule createMockToken_throws [OF wide_payload_not_bytes])
  from n 1 2 3 show ?thesis
    by (intro conjI)
qed

section \<open>Envelope framing\<close>

lemma b64chr_byte: "b64chr i < 256"
  unfolding b64chr_def by (simp; arith)

lemma is_bytes_append [simp]: "is_bytes (a @ b) = (is_bytes a \<and> is_bytes b)"
  by (simp add: is_bytes_def)

lemma is_bytes_Cons [simp]: "is_bytes (c # s) = (c < 256 \<and> is_bytes s)"
  by (simp add: is_bytes_def)

lemma is_bytes_Nil [simp]: "is_bytes []"
  by (simp add: is_bytes_def)

lemma is_bytes_encode64 [simp]: "is_bytes (encode64 s)"
proof -
  have "is_bytes (map b64chr xs)" for xs
    by (induction xs) (simp_all add: b64chr_byte)
  moreover have "is_bytes (replicate n 61)" for n
    by (induction n) simp_all
  ultimately show ?thesis
    by (simp add: encode64_def b64enc_def)
qed

lemma encode64_no_colon [simp]: "58 \<notin> set (encode64 s)"
  using b64chr_not_special(4) by (auto simp: encode64_def b64enc_def)

lemma b64sext_Nil_iff: "b64sext s = [] \<longleftrightarrow> s = []"
  by (induction s rule: b64sext.induct) auto

lemma encode64_Nil_iff [simp]: "encode64 s = [] \<longleftrightarrow> s = []"
  by (auto simp: encode64_def b64enc_def b64sext_Nil_iff b64padn_def)

lemma push_bit_or_add:
  fixes a b :: nat
  assumes "b < 2 ^ n"
  shows "push_bit n a OR b = a * 2 ^ n + b"
proof -
  from assms have t: "take_bit n b = b"
    by (rule take_bit_nat_eq_self)
  have "push_bit n a + take_bit n b = push_bit n a OR take_bit n b"
    by (rule disjunctive_add_eq_or) (auto simp: bit_eq_iff bit_simps)
  then show ?thesis
    by (simp add: t push_bit_eq_mult)
qed

lemma and_15: "(e::nat) AND 15 = e mod 16"
proof -
  have "e AND mask 4 = e mod 16"
    by (simp add: take_bit_eq_mask [symmetric] take_bit_eq_mod)
  moreover have "mask 4 = (15::nat)"
    by (simp add: mask_eq_exp_minus_1)
  ultimately show ?thesis
    by simp
qed

lemma and_3: "(e::nat) AND 3 = e mod 4"
proof -
  have "e AND mask 2 = e mod 4"
    by (simp add: take_bit_eq_mask [symmetric] take_bit_eq_mod)
  moreover have "mask 2 = (3::nat)"
    by (simp add: mask_eq_exp_minus_1)
  ultimately show ?thesis
    by simp
qed

lemma decode_group_bits:
  "e2 < 64 \<Longrightarrow> push_bit 2 e1 OR drop_bit 4 e2 = e1 * 4 + e2 div (16::nat)"
  "e3 < 64 \<Longrightarrow> push_bit 4 (e2 AND 15) OR drop_bit 2 e3 = (e2 mod 16) * 16 + e3 div (4::nat)"
  "e4 < 64 \<Longrightarrow> push_bit 6 (e3 AND 3) OR e4 = (e3 mod 4) * 64 + (e4::nat)"
proof -
  show "e2 < 64 \<Longrightarrow> push_bit 2 e1 OR drop_bit 4 e2 = e1 * 4 + e2 div (16::nat)"
    using push_bit_or_add [of "drop_bit 4 e2" 2 e1] by (simp add: drop_bit_eq_div)
  show "e3 < 64 \<Longrightarrow> push_bit 4 (e2 AND 15) OR drop_bit 2 e3 = (e2 mod 16) * 16 + e3 div (4::nat)"
    using push_bit_or_add [of "drop_bit 2 e3" 4 "e2 AND 15"] by (simp add: drop_bit_eq_div and_15)
  show "e4 < 64 \<Longrightarrow> push_bit 6 (e3 AND 3) OR e4 = (e3 mod 4) * 64 + (e4::nat)"
    using push_bit_or_add [of e4 6 "e3 AND 3"] by (simp add: and_3)
qed

lemma decode_group_sextets:
  "e2 < 64 \<Longrightarrow> e3 < 64 \<Longrightarrow> e4 < 64 \<Longrightarrow>
     decode_group e1 e2 e3 e4 = [e1 * 4 + e2 div 16, (e2 mod 16) * 16 + e3 div 4, (e3 mod 4) * 64 + e4]"
  "e2 < 64 \<Longrightarrow> e3 < 64 \<Longrightarrow>
     decode_group e1 e2 e3 64 = [e1 * 4 + e2 div 16, (e2 mod 16) * 16 + e3 div 4]"
  "e2 < 64 \<Longrightarrow> decode_group e1 e2 64 64 = [e1 * 4 + e2 div 16]"
  by (simp_all add: decode_group_def decode_group_bits del: push_bit_and)

lemma decode_groups_sextets:
  "is_bytes s \<Longrightarrow> decode_groups (b64sext s @ replicate (b64padn s) 64) = s"
proof (induction s rule: b64sext.induct)
  case (1 a b c r)
  then have r: "is_bytes r" and abc: "a < 256" "b < 256" "c < 256"
    by (simp_all add: is_bytes_def)
  have p: "b64padn (a # b # c # r) = b64padn r"
    by (simp add: b64padn_def)
  have "decode_group (a div 4) ((a mod 4) * 16 + b div 16) ((b mod 16) * 4 + c div 64) (c mod 64) = [a, b, c]"
    using abc by (subst decode_group_sextets(1)) simp_all
  with 1 r p show ?case
    by simp
next
  case (2 a b)
  then have ab: "a < 256" "b < 256"
    by (simp_all add: is_bytes_def)
  have "decode_group (a div 4) ((a mod 4) * 16 + b div 16) ((b mod 16) * 4) 64 = [a, b]"
    using ab by (subst decode_group_sextets(2)) simp_all
  then show ?case
    by (simp add: b64padn_def)
next
  case (3 a)
  then have a: "a < 256"
    by (simp add: is_bytes_def)
  have "decode_group (a div 4) ((a mod 4) * 16) 64 64 = [a]"
    using a by (subst decode_group_sextets(3)) simp_all
  then show ?case
    by (simp add: b64padn_def numeral_2_eq_2)
next
  case 4
  then show ?case
    by (simp add: b64padn_def)
qed

lemma map_filter_base64Idx:
  "list_all (\<lambda>i. i < 64) xs \<Longrightarrow>
   List.map_filter base64Idx (map b64chr xs @ replicate n 61) = xs @ replicate n 64"
proof (induction xs)
  case Nil
  have "base64Idx 61 = Some 64"
    by (simp add: base64Idx_def)
  then show ?case
    by (induction n) (simp_all add: List.map_filter_simps)
next
  case (Cons x xs)
  then have "base64Idx (b64chr x) = Some x"
    by (simp add: base64Idx_def b64idx_chr b64chr_not_special)
  with Cons show ?case
    by (simp add: List.map_filter_simps)
qed

lemma decode64_encode64: "is_bytes s \<Longrightarrow> decode64 (encode64 s) = s"
  by (simp add: decode64_def encode64_def b64enc_def map_filter_base64Idx b64sext_lt decode_groups_sextets)

lemma encode64_inj: "is_bytes a \<Longrightarrow> is_bytes b \<Longrightarrow> encode64 a = encode64 b \<Longrightarrow> a = b"
  by (metis decode64_encode64)

lemma split_on_envelope:
  assumes "58 \<notin> set a" "58 \<notin> set b" "58 \<notin> set c"
  shows "split_on 58 (a @ [58] @ b @ [58] @ c) = [a, b, c]"
    and "split_on 58 (a @ [58] @ b @ [58] @ c @ [58] @ j) = a # b # c # split_on 58 j"
  using assms by (simp_all add: split_on_append split_on_no_sep)

lemma encrypt_Inr_iff:
  "encryptDataWithRSA_AES F E payload publicKeyPem aesKey iv seed1 seed2 = Inr t \<longleftrightarrow>
     publicKeyPem \<noteq> [] \<and>
     (\<exists>pk wk wiv. publicKeyFromPem F (trim publicKeyPem) = Some pk
        \<and> rsa_oaep_encrypt F pk (encode64 aesKey) seed1 = Some wk
        \<and> rsa_oaep_encrypt F pk (encode64 iv) seed2 = Some wiv
        \<and> t = encode64 (encode64 wk @ [58] @ encode64 wiv @ [58]
                          @ encode64 (aes_cbc_encrypt F aesKey iv (encodeUtf8 F (JSON_stringify E payload)))))"
  by (auto simp: encryptDataWithRSA_AES_def Let_def split: option.splits)

lemma decrypt_framed:
  assumes priv: "privateKeyPem \<noteq> []" "privateKeyFromPem F (trim privateKeyPem) = Some sk"
    and wk: "is_bytes wk" "wk \<noteq> []" "rsa_oaep_decrypt F sk wk = Some (encode64 aesKey)"
    and wiv: "is_bytes wiv" "wiv \<noteq> []" "rsa_oaep_decrypt F sk wiv = Some (encode64 iv)"
    and rnd: "is_bytes aesKey" "is_bytes iv"
    and ct: "is_bytes ct" "ct \<noteq> []" "aes_cbc_decrypt F aesKey iv ct = Plain plain"
    and parse: "decodeUtf8 F plain = Some text" "JSON_parse E text = Some payload"
    and tail: "tail = [] \<or> (\<exists>j. is_bytes j \<and> tail = [58] @ j)"
  shows "decryptDataWithRSA_AES F E
           (encode64 (encode64 wk @ [58] @ encode64 wiv @ [58] @ encode64 ct @ tail)) privateKeyPem
         = Inr payload"
proof -
  let ?combined = "encode64 wk @ [58] @ encode64 wiv @ [58] @ encode64 ct @ tail"
  from tail have "is_bytes ?combined"
    by auto
  then have d: "decode64 (encode64 ?combined) = ?combined"
    by (rule decode64_encode64)
  from tail have "\<exists>more. split_on 58 ?combined = encode64 wk # encode64 wiv # encode64 ct # more"
  proof
    assume "tail = []"
    then show ?thesis
      using split_on_envelope(1) [of "encode64 wk" "encode64 wiv" "encode64 ct"] by simp
  next
    assume "\<exists>j. is_bytes j \<and> tail = [58] @ j"
    then obtain j where "tail = [58] @ j"
      by blast
    then show ?thesis
      using split_on_envelope(2) [of "encode64 wk" "encode64 wiv" "encode64 ct" j] by simp
  qed
  then obtain more where s: "split_on 58 ?combined = encode64 wk # encode64 wiv # encode64 ct # more"
    by blast
  show ?thesis
    unfolding decryptDataWithRSA_AES_def d s
    using priv wk wiv rnd ct parse by (simp add: decode64_encode64)
qed

lemma plain_forge_matching: "matching_keys plain_forge pk sk"
  by (auto simp: matching_keys_def plain_forge_def split: if_splits)

lemma plain_forge_simps:
  "publicKeyFromPem plain_forge = Some"
  "privateKeyFromPem plain_forge = Some"
  "rsa_oaep_encrypt plain_forge pk (encode64 m) seed = Some (1 # encode64 m)"
  "aes_cbc_encrypt plain_forge key iv plain = 2 # plain"
  "aes_cbc_decrypt plain_forge key iv (2 # plain) = Plain plain"
  "encodeUtf8 plain_forge text = text"
  "decodeUtf8 plain_forge = Some"
  by (simp_all add: plain_forge_def)

lemma trim_k: "js ''k'' \<noteq> []" "trim (js ''k'') = js ''k''"
  by (simp_all add: trim_def js_def js_whitespace_def)

lemma example_object_text:
  "is_bytes (json_text (JObj [(js ''a'', JNum 1)]))"
  by (simp add: json_text_defs)

lemma is_bytes_replicate: "c < 256 \<Longrightarrow> is_bytes (replicate n c)"
  by (induction n) simp_all

lemma plain_forge_encrypt:
  "encryptDataWithRSA_AES plain_forge E P (js ''k'') key iv seed1 seed2
     = Inr (encode64 (encode64 (1 # encode64 key) @ [58] @ encode64 (1 # encode64 iv) @ [58]
                      @ encode64 (2 # JSON_stringify E P)))"
  by (simp add: encryptDataWithRSA_AES_def Let_def plain_forge_simps trim_k)

lemma envelope_decrypt:
  assumes pub: "publicKeyFromPem F (trim publicKeyPem) = Some pk"
    and priv: "privateKeyPem \<noteq> []" "privateKeyFromPem F (trim privateKeyPem) = Some sk"
    and keys: "matching_keys F pk sk"
    and rnd: "is_bytes aesKey" "is_bytes iv"
    and cipher: "sound_cipher F aesKey iv (encodeUtf8 F (JSON_stringify E P))"
    and ser: "serialisable F E P"
    and enc: "encryptDataWithRSA_AES F E P publicKeyPem aesKey iv seed1 seed2 = Inr t"
    and tail: "tail = [] \<or> (\<exists>j. is_bytes j \<and> tail = [58] @ j)"
  shows "decryptDataWithRSA_AES F E (encode64 (decode64 t @ tail)) privateKeyPem = Inr P"
proof -
  let ?ct = "aes_cbc_encrypt F aesKey iv (encodeUtf8 F (JSON_stringify E P))"
  from enc pub obtain wk wiv where
    w: "rsa_oaep_encrypt F pk (encode64 aesKey) seed1 = Some wk"
       "rsa_oaep_encrypt F pk (encode64 iv) seed2 = Some wiv"
    and t: "t = encode64 (encode64 wk @ [58] @ encode64 wiv @ [58] @ encode64 ?ct)"
    by (auto simp: encrypt_Inr_iff)
  from keys w have m:
    "is_bytes wk" "wk \<noteq> []" "rsa_oaep_decrypt F sk wk = Some (encode64 aesKey)"
    "is_bytes wiv" "wiv \<noteq> []" "rsa_oaep_decrypt F sk wiv = Some (encode64 iv)"
    by (simp_all add: matching_keys_def)
  from cipher have c: "is_bytes ?ct" "?ct \<noteq> []"
    "aes_cbc_decrypt F aesKey iv ?ct = Plain (encodeUtf8 F (JSON_stringify E P))"
    by (simp_all add: sound_cipher_def)
  from ser have p: "decodeUtf8 F (encodeUtf8 F (JSON_stringify E P)) = Some (JSON_stringify E P)"
    "JSON_parse E (JSON_stringify E P) = Some P"
    by (simp_all add: serialisable_def)
  have "decode64 t = encode64 wk @ [58] @ encode64 wiv @ [58] @ encode64 ?ct"
    unfolding t by (rule decode64_encode64) simp
  then have "decode64 t @ tail = encode64 wk @ [58] @ encode64 wiv @ [58] @ encode64 ?ct @ tail"
    by simp
  then show ?thesis
    by (simp only: decrypt_framed [OF priv m rnd c p tail])
qed

lemma decrypt_ignores_trailing_part:
  assumes "publicKeyFromPem F (trim publicKeyPem) = Some pk"
    and "privateKeyPem \<noteq> []"
    and "privateKeyFromPem F (trim privateKeyPem) = Some sk"
    and "matching_keys F pk sk"
    and "is_bytes aesKey"
    and "is_bytes iv"
    and "sound_cipher F aesKey iv (encodeUtf8 F (JSON_stringify E P))"
    and "serialisable F E P"
    and "encryptDataWithRSA_AES F E P publicKeyPem aesKey iv seed1 seed2 = Inr t"
    and "is_bytes j"
  shows "decryptDataWithRSA_AES F E (encode64 (decode64 t @ [58] @ j)) privateKeyPem = Inr P"
  using assms by (intro envelope_decrypt) auto

lemma decrypt_fewer_parts:
  assumes "privateKeyPem \<noteq> []"
    and "privateKeyFromPem F (trim privateKeyPem) = Some sk"
    and "length (split_on 58 (decode64 encrypted)) < 3"
  shows "decryptDataWithRSA_AES F E encrypted privateKeyPem = Inl InvalidFormat"
proof -
  from assms(3) have "\<not> (\<exists>a b c more. split_on 58 (decode64 encrypted) = a # b # c # more)"
    by auto
  then show ?thesis
    using assms(1,2) by (auto simp: decryptDataWithRSA_AES_def split: list.splits)
qed

section \<open>Envelope codec\<close>

text \<open>
  C7. When the public key is given and parses and the two OAEP encryptions succeed, with
  results \<open>wk\<close> for the text \<open>base64(key)\<close> and \<open>wiv\<close> for the text \<open>base64(iv)\<close>, the
  transport string is
  \<open>base64(base64(wk) + ":" + base64(wiv) + ":" + base64(CBC ciphertext of JSON(P)))\<close>:
  the OAEP step is applied to the base64 text of the key and of the IV.
\<close>

theorem transport_string_format:
  assumes "publicKeyPem \<noteq> []"
    and "publicKeyFromPem F (trim publicKeyPem) = Some pk"
    and "rsa_oaep_encrypt F pk (encode64 aesKey) seed1 = Some wk"
    and "rsa_oaep_encrypt F pk (encode64 iv) seed2 = Some wiv"
  shows "encryptDataWithRSA_AES F E P publicKeyPem aesKey iv seed1 seed2 =
           Inr (encode64 (encode64 wk @ [58] @ encode64 wiv @ [58]
                          @ encode64 (aes_cbc_encrypt F aesKey iv (encodeUtf8 F (JSON_stringify E P)))))"
  using assms by (simp add: encryptDataWithRSA_AES_def Let_def)

theorem transport_string_format_witness:
  "js ''k'' \<noteq> []
   \<and> publicKeyFromPem plain_forge (trim (js ''k'')) = Some (js ''k'')
   \<and> rsa_oaep_encrypt plain_forge (js ''k'') (encode64 (replicate 32 7)) [] = Some (1 # encode64 (replicate 32 7))
   \<and> rsa_oaep_encrypt plain_forge (js ''k'') (encode64 (replicate 16 9)) [] = Some (1 # encode64 (replicate 16 9))
   \<and> encryptDataWithRSA_AES plain_forge (table_env []) (JObj [(js ''a'', JNum 1)]) (js ''k'')
         (replicate 32 7) (replicate 16 9) [] []
       = Inr (encode64 (encode64 (1 # encode64 (replicate 32 7)) @ [58]
                        @ encode64 (1 # encode64 (replicate 16 9)) @ [58]
                        @ encode64 (2 # json_text (JObj [(js ''a'', JNum 1)]))))"
proof -
  have 1: "js ''k'' \<noteq> []"
    by (rule trim_k)
  have 2: "publicKeyFromPem plain_forge (trim (js ''k'')) = Some (js ''k'')"
    by (simp add: plain_forge_simps trim_k)
  have 3: "rsa_oaep_encrypt plain_forge (js ''k'') (encode64 (replicate 32 7)) [] = Some (1 # encode64 (replicate 32 7))"
    by (rule plain_forge_simps)
  have 4: "rsa_oaep_encrypt plain_forge (js ''k'') (encode64 (replicate 16 9)) [] = Some (1 # encode64 (replicate 16 9))"
    by (rule plain_forge_simps)
  from transport_string_format [OF 1 2 3 4, of "table_env []" "JObj [(js ''a'', JNum 1)]"]
  have "encryptDataWithRSA_AES plain_forge (table_env []) (JObj [(js ''a'', JNum 1)]) (js ''k'')
         (replicate 32 7) (replicate 16 9) [] []
       = Inr (encode64 (encode64 (1 # encode64 (replicate 32 7)) @ [58]
                        @ encode64 (1 # encode64 (replicate 16 9)) @ [58]
                        @ encode64 (2 # json_text (JObj [(js ''a'', JNum 1)]))))"
    by (simp only: plain_forge_simps table_env_simps)
  with 1 2 3 4 show ?thesis
    by (intro conjI)
qed

text \<open>
  C3. The transport string \<open>YTpiOmM6ZA==\<close> is the base64 text of \<open>a:b:c:d\<close>, which splits
  into four parts. \<open>decryptDataWithRSA_AES\<close> takes the first three, finds them
  non-empty and goes on to the RSA step: whatever the key and the primitives are, the
  result is not the format error.
\<close>

theorem decrypt_four_parts_no_format_error:
  "split_on 58 (decode64 (encode64 (js ''a:b:c:d''))) = [js ''a'', js ''b'', js ''c'', js ''d'']
   \<and> decryptDataWithRSA_AES F E (encode64 (js ''a:b:c:d'')) privateKeyPem \<noteq> Inl InvalidFormat"
proof -
  have "is_bytes (js ''a:b:c:d'')"
    by (simp add: js_def)
  then have d: "decode64 (encode64 (js ''a:b:c:d'')) = js ''a:b:c:d''"
    by (rule decode64_encode64)
  have s: "split_on 58 (js ''a:b:c:d'') = [js ''a'', js ''b'', js ''c'', js ''d'']"
    by (simp add: js_def)
  have "decryptDataWithRSA_AES F E (encode64 (js ''a:b:c:d'')) privateKeyPem \<noteq> Inl InvalidFormat"
    unfolding decryptDataWithRSA_AES_def d s
    by (simp add: js_def split: option.splits decipher_result.splits)
  with d s show ?thesis
    by simp
qed

lemma transport_injective_in_key_iv:
  assumes keys: "publicKeyFromPem F (trim publicKeyPem) = Some pk" "matching_keys F pk sk"
    and rnd: "is_bytes key1" "is_bytes iv1" "is_bytes key2" "is_bytes iv2"
    and fresh: "(key1, iv1) \<noteq> (key2, iv2)"
    and t1: "encryptDataWithRSA_AES F E P publicKeyPem key1 iv1 seed1 seed2 = Inr t1"
    and t2: "encryptDataWithRSA_AES F E P publicKeyPem key2 iv2 seed3 seed4 = Inr t2"
  shows "t1 \<noteq> t2"
proof
  assume eq: "t1 = t2"
  from t1 keys(1) obtain wk1 wiv1 where
    w1: "rsa_oaep_encrypt F pk (encode64 key1) seed1 = Some wk1"
        "rsa_oaep_encrypt F pk (encode64 iv1) seed2 = Some wiv1"
    and e1: "t1 = encode64 (encode64 wk1 @ [58] @ encode64 wiv1 @ [58]
                @ encode64 (aes_cbc_encrypt F key1 iv1 (encodeUtf8 F (JSON_stringify E P))))"
    by (auto simp: encrypt_Inr_iff)
  from t2 keys(1) obtain wk2 wiv2 where
    w2: "rsa_oaep_encrypt F pk (encode64 key2) seed3 = Some wk2"
        "rsa_oaep_encrypt F pk (encode64 iv2) seed4 = Some wiv2"
    and e2: "t2 = encode64 (encode64 wk2 @ [58] @ encode64 wiv2 @ [58]
                @ encode64 (aes_cbc_encrypt F key2 iv2 (encodeUtf8 F (JSON_stringify E P))))"
    by (auto simp: encrypt_Inr_iff)
  let ?c1 = "encode64 wk1 @ [58] @ encode64 wiv1 @ [58]
               @ encode64 (aes_cbc_encrypt F key1 iv1 (encodeUtf8 F (JSON_stringify E P)))"
  let ?c2 = "encode64 wk2 @ [58] @ encode64 wiv2 @ [58]
               @ encode64 (aes_cbc_encrypt F key2 iv2 (encodeUtf8 F (JSON_stringify E P)))"
  have "is_bytes ?c1" "is_bytes ?c2"
    by simp_all
  with eq e1 e2 have c: "?c1 = ?c2"
    by (metis encode64_inj)
  have "[encode64 wk1, encode64 wiv1,
         encode64 (aes_cbc_encrypt F key1 iv1 (encodeUtf8 F (JSON_stringify E P)))] = split_on 58 ?c1"
    by (rule split_on_envelope(1) [symmetric]) simp_all
  also have "\<dots> = split_on 58 ?c2"
    by (rule arg_cong [OF c])
  also have "\<dots> = [encode64 wk2, encode64 wiv2,
         encode64 (aes_cbc_encrypt F key2 iv2 (encodeUtf8 F (JSON_stringify E P)))]"
    by (rule split_on_envelope(1)) simp_all
  finally have p: "encode64 wk1 = encode64 wk2" "encode64 wiv1 = encode64 wiv2"
    by simp_all
  from keys(2) w1 w2 have m:
    "is_bytes wk1" "rsa_oaep_decrypt F sk wk1 = Some (encode64 key1)"
    "is_bytes wiv1" "rsa_oaep_decrypt F sk wiv1 = Some (encode64 iv1)"
    "is_bytes wk2" "rsa_oaep_decrypt F sk wk2 = Some (encode64 key2)"
    "is_bytes wiv2" "rsa_oaep_decrypt F sk wiv2 = Some (encode64 iv2)"
    by (simp_all add: matching_keys_def)
  from p m have "wk1 = wk2" "wiv1 = wiv2"
    by (simp_all add: encode64_inj)
  with m have "encode64 key1 = encode64 key2" "encode64 iv1 = encode64 iv2"
    by simp_all
  with rnd have "key1 = key2" "iv1 = iv2"
    by (simp_all add: encode64_inj)
  with fresh show False
    by simp
qed

lemma is_bytes_getBytesSync [simp]: "is_bytes (getBytesSync tape pos n)"
proof -
  have "of_char c < (256::nat)" for c
    by (metis of_char_mod_256 mod_less_divisor zero_less_numeral)
  then show ?thesis
    by (simp add: getBytesSync_def is_bytes_def list_all_iff)
qed

lemma encrypt_call_Inr_iff:
  "encryptDataWithRSA_AES_call F E tape seedLen P publicKeyPem pos = Inr (t, pos') \<longleftrightarrow>
     encryptDataWithRSA_AES F E P publicKeyPem
       (getBytesSync tape pos 32) (getBytesSync tape (pos + 32) 16)
       (getBytesSync tape (pos + 48) seedLen) (getBytesSync tape (pos + 48 + seedLen) seedLen) = Inr t
     \<and> pos' = pos + 48 + 2 * seedLen"
  by (auto simp: encryptDataWithRSA_AES_call_def Let_def split: sum.splits)

lemma plain_forge_encrypt_call:
  "encryptDataWithRSA_AES_call plain_forge E tape seedLen P (js ''k'') pos
     = Inr (encode64 (encode64 (1 # encode64 (getBytesSync tape pos 32)) @ [58]
                      @ encode64 (1 # encode64 (getBytesSync tape (pos + 32) 16)) @ [58]
                      @ encode64 (2 # JSON_stringify E P)),
            pos + 48 + 2 * seedLen)"
  by (simp add: encryptDataWithRSA_AES_call_def Let_def plain_forge_encrypt)

lemma counting_tape_draws_differ:
  "getBytesSync counting_tape 0 32 \<noteq> getBytesSync counting_tape 88 32"
proof
  assume "getBytesSync counting_tape 0 32 = getBytesSync counting_tape 88 32"
  then have "getBytesSync counting_tape 0 32 ! 0 = getBytesSync counting_tape 88 32 ! 0"
    by simp
  then show False
    by (simp add: getBytesSync_def counting_tape_def)
qed

text \<open>
  C8. Every call draws its key and its IV itself, from the random generator, and keeps
  none of them: a call that returns has consumed the 48 bytes of its key and IV, so a
  later call draws other bytes of the generator, and the transport string of each call
  is the one of the key and IV which that call drew. For a public key of a key pair,
  two such calls for the same payload whose drawn key and IV are not the same pair
  return different transport strings.
\<close>

theorem fresh_key_iv_per_call:
  assumes "publicKeyFromPem F (trim publicKeyPem) = Some pk"
    and "matching_keys F pk sk"
    and "encryptDataWithRSA_AES_call F E tape seedLen P publicKeyPem pos = Inr (t1, pos1)"
    and "pos1 \<le> pos2"
    and "encryptDataWithRSA_AES_call F E tape seedLen P publicKeyPem pos2 = Inr (t2, pos3)"
  shows "pos + 48 \<le> pos1
         \<and> {pos..<pos + 48} \<inter> {pos2..<pos2 + 48} = {}
         \<and> (\<exists>seed1 seed2. encryptDataWithRSA_AES F E P publicKeyPem
                (getBytesSync tape pos 32) (getBytesSync tape (pos + 32) 16) seed1 seed2 = Inr t1)
         \<and> (\<exists>seed1 seed2. encryptDataWithRSA_AES F E P publicKeyPem
                (getBytesSync tape pos2 32) (getBytesSync tape (pos2 + 32) 16) seed1 seed2 = Inr t2)
         \<and> ((getBytesSync tape pos 32, getBytesSync tape (pos + 32) 16)
               \<noteq> (getBytesSync tape pos2 32, getBytesSync tape (pos2 + 32) 16)
              \<longrightarrow> t1 \<noteq> t2)"
proof -
  from assms(3) have e1: "encryptDataWithRSA_AES F E P publicKeyPem
       (getBytesSync tape pos 32) (getBytesSync tape (pos + 32) 16)
       (getBytesSync tape (pos + 48) seedLen) (getBytesSync tape (pos + 48 + seedLen) seedLen) = Inr t1"
    and p1: "pos1 = pos + 48 + 2 * seedLen"
    by (simp_all add: encrypt_call_Inr_iff)
  from assms(5) have e2: "encryptDataWithRSA_AES F E P publicKeyPem
       (getBytesSync tape pos2 32) (getBytesSync tape (pos2 + 32) 16)
       (getBytesSync tape (pos2 + 48) seedLen) (getBytesSync tape (pos2 + 48 + seedLen) seedLen) = Inr t2"
    by (simp_all add: encrypt_call_Inr_iff)
  from p1 have a: "pos + 48 \<le> pos1"
    by simp
  with assms(4) have b: "{pos..<pos + 48} \<inter> {pos2..<pos2 + 48} = {}"
    by auto
  have c: "t1 \<noteq> t2"
    if "(getBytesSync tape pos 32, getBytesSync tape (pos + 32) 16)
          \<noteq> (getBytesSync tape pos2 32, getBytesSync tape (pos2 + 32) 16)"
    by (rule transport_injective_in_key_iv [OF assms(1) assms(2) _ _ _ _ that e1 e2]) simp_all
  from a b c e1 e2 show ?thesis
    by blast
qed

theorem fresh_key_iv_per_call_witness:
  "publicKeyFromPem plain_forge (trim (js ''k'')) = Some (js ''k'')
   \<and> matching_keys plain_forge (js ''k'') (js ''k'')
   \<and> (88::nat) \<le> 88
   \<and> (getBytesSync counting_tape 0 32, getBytesSync counting_tape (0 + 32) 16)
        \<noteq> (getBytesSync counting_tape 88 32, getBytesSync counting_tape (88 + 32) 16)
   \<and> (\<exists>t1 t2.
         encryptDataWithRSA_AES_call plain_forge (table_env []) counting_tape 20
            (JObj [(js ''a'', JNum 1)]) (js ''k'') 0 = Inr (t1, 88)
         \<and> encryptDataWithRSA_AES_call plain_forge (table_env []) counting_tape 20
            (JObj [(js ''a'', JNum 1)]) (js ''k'') 88 = Inr (t2, 176)
         \<and> t1 \<noteq> t2)
   \<and> {0..<0 + 48} \<inter> {88..<88 + 48} = ({} :: nat set)"
proof -
  let ?E = "table_env []"
  let ?P = "JObj [(js ''a'', JNum 1)]"
  have 1: "publicKeyFromPem plain_forge (trim (js ''k'')) = Some (js ''k'')"
    by (simp add: plain_forge_simps trim_k)
  have 2: "matching_keys plain_forge (js ''k'') (js ''k'')"
    by (rule plain_forge_matching)
  have 3: "(88::nat) \<le> 88"
    by simp
  have 4: "(getBytesSync counting_tape 0 32, getBytesSync counting_tape (0 + 32) 16)
        \<noteq> (getBytesSync counting_tape 88 32, getBytesSync counting_tape (88 + 32) 16)"
    using counting_tape_draws_differ by simp
  obtain t1 where c1: "encryptDataWithRSA_AES_call plain_forge ?E counting_tape 20 ?P (js ''k'') 0 = Inr (t1, 88)"
    by (simp add: plain_forge_encrypt_call)
  obtain t2 where c2: "encryptDataWithRSA_AES_call plain_forge ?E counting_tape 20 ?P (js ''k'') 88 = Inr (t2, 176)"
    by (simp add: plain_forge_encrypt_call)
  from fresh_key_iv_per_call [OF 1 2 c1 3 c2] 4
  have "t1 \<noteq> t2" and 5: "{0..<0 + 48} \<inter> {88..<88 + 48} = ({} :: nat set)"
    by blast+
  with c1 c2 have "\<exists>t1 t2.
         encryptDataWithRSA_AES_call plain_forge ?E counting_tape 20 ?P (js ''k'') 0 = Inr (t1, 88)
         \<and> encryptDataWithRSA_AES_call plain_forge ?E counting_tape 20 ?P (js ''k'') 88 = Inr (t2, 176)
         \<and> t1 \<noteq> t2"
    by blast
  with 1 2 3 4 5 show ?thesis
    by (intro conjI)
qed

text \<open>
  C1. Let the public and the private key parse to a matching pair, the key and the IV
  be byte strings, the cipher be sound on the serialised payload and the payload be
  serialisable. Then the transport string that \<open>encryptDataWithRSA_AES\<close> returns for a
  payload \<open>P\<close> is decrypted by \<open>decryptDataWithRSA_AES\<close> to \<open>P\<close>.
\<close>

theorem envelope_roundtrip:
  assumes "publicKeyFromPem F (trim publicKeyPem) = Some pk"
    and "privateKeyPem \<noteq> []"
    and "privateKeyFromPem F (trim privateKeyPem) = Some sk"
    and "matching_keys F pk sk"
    and "is_bytes aesKey"
    and "is_bytes iv"
    and "sound_cipher F aesKey iv (encodeUtf8 F (JSON_stringify E P))"
    and "serialisable F E P"
    and "encryptDataWithRSA_AES F E P publicKeyPem aesKey iv seed1 seed2 = Inr t"
  shows "decryptDataWithRSA_AES F E t privateKeyPem = Inr P"
proof -
  have "decryptDataWithRSA_AES F E (encode64 (decode64 t @ [])) privateKeyPem = Inr P"
    using assms by (intro envelope_decrypt) simp_all
  moreover from assms(9) have "encode64 (decode64 t) = t"
    by (auto simp: encrypt_Inr_iff decode64_encode64)
  ultimately show ?thesis
    by simp
qed

theorem envelope_roundtrip_witness:
  "publicKeyFromPem plain_forge (trim (js ''k'')) = Some (js ''k'')
   \<and> js ''k'' \<noteq> []
   \<and> privateKeyFromPem plain_forge (trim (js ''k'')) = Some (js ''k'')
   \<and> matching_keys plain_forge (js ''k'') (js ''k'')
   \<and> is_bytes (replicate 32 7) \<and> is_bytes (replicate 16 9)
   \<and> sound_cipher plain_forge (replicate 32 7) (replicate 16 9)
        (encodeUtf8 plain_forge (JSON_stringify (table_env [JObj [(js ''a'', JNum 1)]]) (JObj [(js ''a'', JNum 1)])))
   \<and> serialisable plain_forge (table_env [JObj [(js ''a'', JNum 1)]]) (JObj [(js ''a'', JNum 1)])
   \<and> (\<exists>t. encryptDataWithRSA_AES plain_forge (table_env [JObj [(js ''a'', JNum 1)]])
              (JObj [(js ''a'', JNum 1)]) (js ''k'') (replicate 32 7) (replicate 16 9) [] [] = Inr t
            \<and> decryptDataWithRSA_AES plain_forge (table_env [JObj [(js ''a'', JNum 1)]]) t (js ''k'')
                = Inr (JObj [(js ''a'', JNum 1)]))"
proof -
  let ?E = "table_env [JObj [(js ''a'', JNum 1)]]"
  let ?P = "JObj [(js ''a'', JNum 1)]"
  have 1: "publicKeyFromPem plain_forge (trim (js ''k'')) = Some (js ''k'')"
    by (simp add: plain_forge_simps trim_k)
  have 2: "js ''k'' \<noteq> []"
    by (rule trim_k)
  have 3: "privateKeyFromPem plain_forge (trim (js ''k'')) = Some (js ''k'')"
    by (simp add: plain_forge_simps trim_k)
  have 4: "matching_keys plain_forge (js ''k'') (js ''k'')"
    by (rule plain_forge_matching)
  have 5: "is_bytes (replicate 32 7)" and 6: "is_bytes (replicate 16 9)"
    by (simp_all add: is_bytes_replicate)
  have 7: "sound_cipher plain_forge (replicate 32 7) (replicate 16 9)
             (encodeUtf8 plain_forge (JSON_stringify ?E ?P))"
    using example_object_text by (simp add: sound_cipher_def plain_forge_simps table_env_simps del: json_text.simps)
  have 8: "serialisable plain_forge ?E ?P"
    by (simp only: serialisable_def plain_forge_simps table_env_simps)
  from envelope_roundtrip [OF 1 2 3 4 5 6 7 8
      plain_forge_encrypt [of ?E ?P "replicate 32 7" "replicate 16 9" "[]" "[]"]]
  have "\<exists>t. encryptDataWithRSA_AES plain_forge ?E ?P (js ''k'') (replicate 32 7) (replicate 16 9) [] [] = Inr t
            \<and> decryptDataWithRSA_AES plain_forge ?E t (js ''k'') = Inr ?P"
    using plain_forge_encrypt by blast
  with 1 2 3 4 5 6 7 8 show ?thesis
    by (intro conjI)
qed

end
